theory Spec2Isabelle
  imports Complex_Main
begin

section \<open>Numbers\<close>

text \<open>
  The TypeScript module computes on \<open>number\<close> and the firmware on \<open>float\<close>. Both are
  modelled by one type: a real value, or one of the three special values of IEEE 754
  arithmetic. Every operation on real values is exact (rounding and overflow are left
  out, and the two zeros are one value); the special values follow the IEEE rules, so
  that \<open>0 / 0\<close> is \<open>NaN\<close> and every ordered comparison with \<open>NaN\<close> is false.
  \<open>fabs\<close>, \<open>fsqrt\<close>, \<open>fcos\<close>, \<open>fsin\<close> and \<open>flog\<close> stand for \<open>Math.abs\<close>, \<open>Math.sqrt\<close>,
  \<open>Math.cos\<close>, \<open>Math.sin\<close> of the module and for \<open>abs\<close>, \<open>sqrt\<close>, \<open>cos\<close>, \<open>sin\<close>, \<open>log\<close> of
  the firmware, all on floating-point arguments.
\<close>

datatype number = Val real | PosInf | NegInf | NaN

fun is_finite :: "number \<Rightarrow> bool" where
  "is_finite (Val _) = True"
| "is_finite _ = False"

fun fneg :: "number \<Rightarrow> number" where
  "fneg (Val a) = Val (- a)"
| "fneg PosInf = NegInf"
| "fneg NegInf = PosInf"
| "fneg NaN = NaN"

fun fadd :: "number \<Rightarrow> number \<Rightarrow> number" where
  "fadd (Val a) (Val b) = Val (a + b)"
| "fadd NaN _ = NaN"
| "fadd _ NaN = NaN"
| "fadd PosInf NegInf = NaN"
| "fadd NegInf PosInf = NaN"
| "fadd PosInf _ = PosInf"
| "fadd _ PosInf = PosInf"
| "fadd NegInf _ = NegInf"
| "fadd _ NegInf = NegInf"

definition fsub :: "number \<Rightarrow> number \<Rightarrow> number" where
  "fsub a b = fadd a (fneg b)"

text \<open>The sign rule for a product or quotient with an infinite operand.\<close>

definition signed_inf :: "bool \<Rightarrow> number" where
  "signed_inf positive = (if positive then PosInf else NegInf)"

fun fmul :: "number \<Rightarrow> number \<Rightarrow> number" where
  "fmul (Val a) (Val b) = Val (a * b)"
| "fmul NaN _ = NaN"
| "fmul _ NaN = NaN"
| "fmul (Val a) PosInf = (if a = 0 then NaN else signed_inf (0 < a))"
| "fmul (Val a) NegInf = (if a = 0 then NaN else signed_inf (a < 0))"
| "fmul PosInf (Val b) = (if b = 0 then NaN else signed_inf (0 < b))"
| "fmul NegInf (Val b) = (if b = 0 then NaN else signed_inf (b < 0))"
| "fmul PosInf PosInf = PosInf"
| "fmul PosInf NegInf = NegInf"
| "fmul NegInf PosInf = NegInf"
| "fmul NegInf NegInf = PosInf"

fun fdiv :: "number \<Rightarrow> number \<Rightarrow> number" where
  "fdiv (Val a) (Val b) =
     (if b \<noteq> 0 then Val (a / b) else if a = 0 then NaN else signed_inf (0 < a))"
| "fdiv NaN _ = NaN"
| "fdiv _ NaN = NaN"
| "fdiv (Val a) _ = Val 0"
| "fdiv PosInf (Val b) = signed_inf (0 \<le> b)"
| "fdiv NegInf (Val b) = signed_inf (b < 0)"
| "fdiv _ _ = NaN"

fun fabs :: "number \<Rightarrow> number" where
  "fabs (Val a) = Val \<bar>a\<bar>"
| "fabs NaN = NaN"
| "fabs _ = PosInf"

fun fsqrt :: "number \<Rightarrow> number" where
  "fsqrt (Val a) = (if a < 0 then NaN else Val (sqrt a))"
| "fsqrt PosInf = PosInf"
| "fsqrt _ = NaN"

fun fcos :: "number \<Rightarrow> number" where
  "fcos (Val a) = Val (cos a)"
| "fcos _ = NaN"

fun fsin :: "number \<Rightarrow> number" where
  "fsin (Val a) = Val (sin a)"
| "fsin _ = NaN"

fun flog :: "number \<Rightarrow> number" where
  "flog (Val a) = (if a < 0 then NaN else if a = 0 then NegInf else Val (ln a))"
| "flog PosInf = PosInf"
| "flog _ = NaN"

fun flt :: "number \<Rightarrow> number \<Rightarrow> bool" where
  "flt (Val a) (Val b) = (a < b)"
| "flt NaN _ = False"
| "flt _ NaN = False"
| "flt NegInf b = (b \<noteq> NegInf)"
| "flt a PosInf = (a \<noteq> PosInf)"
| "flt _ _ = False"

fun fle :: "number \<Rightarrow> number \<Rightarrow> bool" where
  "fle (Val a) (Val b) = (a \<le> b)"
| "fle NaN _ = False"
| "fle _ NaN = False"
| "fle NegInf _ = True"
| "fle _ PosInf = True"
| "fle _ _ = False"

definition fgt :: "number \<Rightarrow> number \<Rightarrow> bool" where
  "fgt a b = flt b a"

definition fge :: "number \<Rightarrow> number \<Rightarrow> bool" where
  "fge a b = fle b a"

text \<open>\<open>Math.min\<close> and \<open>Math.max\<close> of JavaScript return \<open>NaN\<close> when an argument is \<open>NaN\<close>.\<close>

definition Math_min :: "number \<Rightarrow> number \<Rightarrow> number" where
  "Math_min a b = (if a = NaN \<or> b = NaN then NaN else if flt b a then b else a)"

definition Math_max :: "number \<Rightarrow> number \<Rightarrow> number" where
  "Math_max a b = (if a = NaN \<or> b = NaN then NaN else if flt a b then b else a)"

text \<open>
  The firmware's \<open>min\<close> and \<open>max\<close> come from the board's core header, which is not part of
  the sources; they are taken as the C++ library templates the call sites are typed for
  (\<open>min(a, b)\<close> is \<open>b < a ? b : a\<close>, \<open>max(a, b)\<close> is \<open>a < b ? b : a\<close>).
\<close>

definition std_min :: "number \<Rightarrow> number \<Rightarrow> number" where
  "std_min a b = (if flt b a then b else a)"

definition std_max :: "number \<Rightarrow> number \<Rightarrow> number" where
  "std_max a b = (if flt a b then b else a)"

text \<open>JavaScript's \<open>x || y\<close> on numbers: \<open>0\<close> and \<open>NaN\<close> are falsy.\<close>

definition js_or :: "number \<Rightarrow> number \<Rightarrow> number" where
  "js_or x y = (if x = Val 0 \<or> x = NaN then y else x)"


section \<open>The bandpass filter\<close>

text \<open>
  \<open>ButterworthFilter\<close> of the processing module: the coefficient arrays \<open>b\<close> and \<open>a\<close>
  are never written, the three-element array \<open>history\<close> is the state.
\<close>

definition filter_b :: "number list" where
  "filter_b = [Val 0.0976, Val 0.1952, Val 0.0976]"

definition filter_a :: "number list" where
  "filter_a = [Val 1.0000, Val (- 0.9428), Val 0.3333]"

record ButterworthFilter =
  history0 :: number
  history1 :: number
  history2 :: number

definition new_ButterworthFilter :: ButterworthFilter where
  "new_ButterworthFilter = \<lparr>history0 = Val 0, history1 = Val 0, history2 = Val 0\<rparr>"

text \<open>\<open>filter(input)\<close> returns the output and the filter with its history shifted.\<close>

definition filter_sample :: "ButterworthFilter \<Rightarrow> number \<Rightarrow> number \<times> ButterworthFilter" where
  "filter_sample f input =
     (let f1 = f\<lparr>history2 := history1 f\<rparr>;
          f2 = f1\<lparr>history1 := history0 f1\<rparr>;
          f3 = f2\<lparr>history0 := input\<rparr>;
          output =
            fsub (fsub (fadd (fadd (fmul (filter_b ! 0) (history0 f3))
                                   (fmul (filter_b ! 1) (history1 f3)))
                             (fmul (filter_b ! 2) (history2 f3)))
                       (fmul (filter_a ! 1) (history1 f3)))
                 (fmul (filter_a ! 2) (history2 f3))
      in (output, f3))"

definition reset :: "ButterworthFilter \<Rightarrow> ButterworthFilter" where
  "reset f = f\<lparr>history0 := Val 0, history1 := Val 0, history2 := Val 0\<rparr>"

text \<open>\<open>signal.map(sample => filter.filter(sample))\<close>: one filter, fed in order.\<close>

fun filter_map :: "ButterworthFilter \<Rightarrow> number list \<Rightarrow> number list" where
  "filter_map f [] = []"
| "filter_map f (sample # signal) =
     (let (output, f') = filter_sample f sample in output # filter_map f' signal)"

definition applyBandpassFilter :: "number list \<Rightarrow> number list" where
  "applyBandpassFilter signal = filter_map new_ButterworthFilter signal"

text \<open>
  The firmware's \<open>applyBandpassFilter\<close> works on the global \<open>filterHistory\<close> with the
  same coefficients; its two denominator terms multiply a difference of a value with
  itself.
\<close>

definition fw_applyBandpassFilter :: "ButterworthFilter \<Rightarrow> number \<Rightarrow> number \<times> ButterworthFilter" where
  "fw_applyBandpassFilter f input =
     (let f1 = f\<lparr>history2 := history1 f\<rparr>;
          f2 = f1\<lparr>history1 := history0 f1\<rparr>;
          f3 = f2\<lparr>history0 := input\<rparr>;
          output =
            fsub (fsub (fadd (fadd (fmul (filter_b ! 0) (history0 f3))
                                   (fmul (filter_b ! 1) (history1 f3)))
                             (fmul (filter_b ! 2) (history2 f3)))
                       (fmul (filter_a ! 1) (fsub (history1 f3) (history1 f3))))
                 (fmul (filter_a ! 2) (fsub (history2 f3) (history2 f3)))
      in (output, f3))"

fun fw_filter_run :: "ButterworthFilter \<Rightarrow> number list \<Rightarrow> number list" where
  "fw_filter_run f [] = []"
| "fw_filter_run f (sample # signal) =
     (let (output, f') = fw_applyBandpassFilter f sample in output # fw_filter_run f' signal)"

text \<open>
  The recurrence of the specification, on real samples, with the two previous inputs
  \<open>x1\<close>, \<open>x2\<close> and the two previous outputs \<open>y1\<close>, \<open>y2\<close> as state, all zero at the start:
  \<open>y[n] = b0 x[n] + b1 x[n-1] + b2 x[n-2] - a1 y[n-1] - a2 y[n-2]\<close>.
\<close>

fun iir_run :: "real \<Rightarrow> real \<Rightarrow> real \<Rightarrow> real \<Rightarrow> real list \<Rightarrow> real list" where
  "iir_run x1 x2 y1 y2 [] = []"
| "iir_run x1 x2 y1 y2 (x # xs) =
     (let y = 0.0976 * x + 0.1952 * x1 + 0.0976 * x2 - (- 0.9428) * y1 - 0.3333 * y2
      in y # iir_run x x1 y y1 xs)"

definition iir_recurrence :: "real list \<Rightarrow> real list" where
  "iir_recurrence xs = iir_run 0 0 0 0 xs"

section \<open>The processing module: spectrum, features, insights\<close>

text \<open>
  The inner loop of \<open>simpleFFT\<close> for one frequency: it accumulates \<open>real\<close> and \<open>imag\<close>
  over \<open>t = 0, ..., n - 1\<close>.
\<close>

definition fft_sum :: "number list \<Rightarrow> number \<Rightarrow> number \<Rightarrow> number \<times> number" where
  "fft_sum data sampleRate freq =
     foldl (\<lambda>(re, im) t.
              let angle = fdiv (fmul (fmul (fmul (Val (- 2)) (Val pi)) freq) (Val (real t)))
                               sampleRate
              in (fadd re (fmul (data ! t) (fcos angle)),
                  fadd im (fmul (data ! t) (fsin angle))))
           (Val 0, Val 0) [0..<length data]"

text \<open>
  \<open>simpleFFT\<close> returns the arrays \<open>magnitude\<close> and \<open>frequency\<close>, here a pair of lists.
  Its outer loop runs while \<open>k < n / 2\<close> with a real quotient: \<open>(n + 1) div 2\<close> bins.
\<close>

definition simpleFFT :: "number list \<Rightarrow> number \<Rightarrow> number list \<times> number list" where
  "simpleFFT data sampleRate =
     (let n = length data;
          freq = (\<lambda>k. fdiv (fmul (Val (real k)) sampleRate) (Val (real n)))
      in (map (\<lambda>k. let (re, im) = fft_sum data sampleRate (freq k)
                    in fsqrt (fadd (fmul re re) (fmul im im)))
              [0..<(n + 1) div 2],
          map freq [0..<(n + 1) div 2]))"

record ProcessedEMGFeatures =
  frequency :: number
  amplitude :: number
  severityIndex :: number
  dominantFrequency :: number
  spectralCentroid :: number
  signalEnergy :: number
  zeroCrossingRate :: number
  rmsAmplitude :: number
  meanAmplitude :: number
  signalVariance :: number

text \<open>The sign test of the zero-crossing loops, the same text in both programs.\<close>

definition crossing :: "number \<Rightarrow> number \<Rightarrow> bool" where
  "crossing prev cur =
     ((fgt prev (Val 0) \<and> flt cur (Val 0)) \<or> (flt prev (Val 0) \<and> fgt cur (Val 0)))"

definition zeroCrossings :: "number list \<Rightarrow> nat" where
  "zeroCrossings signal =
     length (filter (\<lambda>i. crossing (signal ! (i - 1)) (signal ! i)) [1..<length signal])"

definition in_tremor_band :: "number \<Rightarrow> bool" where
  "in_tremor_band freq = (fge freq (Val 3) \<and> fle freq (Val 12))"

text \<open>
  One round of the loop that finds the dominant bin; the state is
  \<open>(maxMagnitude, dominantFreqBin, totalPower)\<close>. The firmware's loop has the same body.
\<close>

definition dominant_step ::
  "number list \<Rightarrow> (nat \<Rightarrow> number) \<Rightarrow> number \<times> nat \<times> number \<Rightarrow> nat \<Rightarrow> number \<times> nat \<times> number" where
  "dominant_step magnitude freq_of st i =
     (case st of (maxMagnitude, dominantFreqBin, totalPower) \<Rightarrow>
        if in_tremor_band (freq_of i) then
          (let totalPower' = fadd totalPower (magnitude ! i)
           in if fgt (magnitude ! i) maxMagnitude
              then (magnitude ! i, i, totalPower')
              else (maxMagnitude, dominantFreqBin, totalPower'))
        else st)"

definition centroid_step :: "number list \<Rightarrow> (nat \<Rightarrow> number) \<Rightarrow> number \<Rightarrow> nat \<Rightarrow> number" where
  "centroid_step magnitude freq_of weightedSum i =
     (if in_tremor_band (freq_of i)
      then fadd weightedSum (fmul (freq_of i) (magnitude ! i))
      else weightedSum)"

text \<open>\<open>Math.pow(x, 2)\<close>.\<close>

definition Math_pow_2 :: "number \<Rightarrow> number" where
  "Math_pow_2 x = fmul x x"

definition zero_features :: ProcessedEMGFeatures where
  "zero_features =
     \<lparr>frequency = Val 0, amplitude = Val 0, severityIndex = Val 0, dominantFrequency = Val 0,
      spectralCentroid = Val 0, signalEnergy = Val 0, zeroCrossingRate = Val 0,
      rmsAmplitude = Val 0, meanAmplitude = Val 0, signalVariance = Val 0\<rparr>"

text \<open>The blocks of \<open>extractEMGFeatures\<close>, in the order of the source.\<close>

definition emg_meanAmplitude :: "number list \<Rightarrow> number" where
  "emg_meanAmplitude signal =
     fdiv (foldl (\<lambda>sum val. fadd sum (fabs val)) (Val 0) signal) (Val (real (length signal)))"

definition emg_rmsAmplitude :: "number list \<Rightarrow> number" where
  "emg_rmsAmplitude signal =
     fsqrt (fdiv (foldl (\<lambda>sum val. fadd sum (fmul val val)) (Val 0) signal)
                 (Val (real (length signal))))"

definition emg_signalVariance :: "number list \<Rightarrow> number" where
  "emg_signalVariance signal =
     fdiv (foldl (\<lambda>sum val. fadd sum (Math_pow_2 (fsub val (emg_meanAmplitude signal))))
                 (Val 0) signal)
          (Val (real (length signal)))"

definition emg_zeroCrossingRate :: "number list \<Rightarrow> number" where
  "emg_zeroCrossingRate signal =
     fdiv (Val (real (zeroCrossings signal))) (Val (real (length signal)))"

text \<open>The state \<open>(maxMagnitude, dominantFreqBin, totalPower)\<close> after the dominant-bin loop.\<close>

definition emg_dominant :: "number list \<Rightarrow> number \<Rightarrow> number \<times> nat \<times> number" where
  "emg_dominant signal sampleRate =
     (let (magnitude, frequencyArray) = simpleFFT signal sampleRate
      in foldl (dominant_step magnitude (\<lambda>i. frequencyArray ! i)) (Val 0, 0, Val 0)
               [1..<length magnitude])"

definition emg_dominantFrequency :: "number list \<Rightarrow> number \<Rightarrow> number" where
  "emg_dominantFrequency signal sampleRate =
     (let (magnitude, frequencyArray) = simpleFFT signal sampleRate;
          (maxMagnitude, dominantFreqBin, totalPower) = emg_dominant signal sampleRate
      in js_or (frequencyArray ! dominantFreqBin) (Val 0))"

definition emg_spectralCentroid :: "number list \<Rightarrow> number \<Rightarrow> number" where
  "emg_spectralCentroid signal sampleRate =
     (let (magnitude, frequencyArray) = simpleFFT signal sampleRate;
          (maxMagnitude, dominantFreqBin, totalPower) = emg_dominant signal sampleRate;
          weightedSum = foldl (centroid_step magnitude (\<lambda>i. frequencyArray ! i)) (Val 0)
                              [1..<length magnitude]
      in if fgt totalPower (Val 0) then fdiv weightedSum totalPower else Val 0)"

definition emg_severityIndex :: "number \<Rightarrow> number \<Rightarrow> number \<Rightarrow> number" where
  "emg_severityIndex rms domFreq zcr =
     Math_min (Val 100) (Math_max (Val 0)
       (fadd (fadd (fmul (fdiv rms (Val 100)) (Val 50))
                   (fmul (fdiv domFreq (Val 10)) (Val 30)))
             (fmul (fmul zcr (Val 100)) (Val 20))))"

definition extractEMGFeatures :: "number list \<Rightarrow> number \<Rightarrow> ProcessedEMGFeatures" where
  "extractEMGFeatures signal sampleRate =
     (if length signal = 0 then zero_features
      else
        let mean = emg_meanAmplitude signal;
            rms = emg_rmsAmplitude signal;
            energy = fmul rms rms;
            variance = emg_signalVariance signal;
            zcr = emg_zeroCrossingRate signal;
            domFreq = emg_dominantFrequency signal sampleRate;
            centroid = emg_spectralCentroid signal sampleRate
        in \<lparr>frequency = domFreq, amplitude = rms,
            severityIndex = emg_severityIndex rms domFreq zcr,
            dominantFrequency = domFreq, spectralCentroid = centroid, signalEnergy = energy,
            zeroCrossingRate = zcr, rmsAmplitude = rms, meanAmplitude = mean,
            signalVariance = variance\<rparr>)"

text \<open>
  The four strings \<open>normal\<close>, \<open>mild\<close>, \<open>moderate\<close> and \<open>severe\<close> that both programs use for
  the pattern, in the order of severity.
\<close>

datatype pattern = Normal | Mild | Moderate | Severe

fun ordinal :: "pattern \<Rightarrow> nat" where
  "ordinal Normal = 0"
| "ordinal Mild = 1"
| "ordinal Moderate = 2"
| "ordinal Severe = 3"

record Insights =
  pattern :: pattern
  confidence :: number
  recommendations :: "string list"
  predictedProgression :: string

definition recommendations_for :: "pattern \<Rightarrow> string list" where
  "recommendations_for p =
     (case p of
        Severe \<Rightarrow> [''Contact healthcare provider immediately'',
                   ''Monitor for medication effectiveness'',
                   ''Consider DBS evaluation if persistent'']
      | Moderate \<Rightarrow> [''Continue current medication regimen'',
                     ''Monitor for pattern changes'',
                     ''Consider physical therapy'']
      | Mild \<Rightarrow> [''Regular monitoring recommended'',
                 ''Maintain healthy lifestyle'',
                 ''Watch for progression indicators'']
      | Normal \<Rightarrow> [''Continue normal activities'',
                   ''Regular check-ups recommended'',
                   ''No immediate concerns''])"

definition progression_for :: "pattern \<Rightarrow> string" where
  "progression_for p =
     (case p of
        Severe \<Rightarrow> ''Rapid progression likely - immediate intervention recommended''
      | Moderate \<Rightarrow> ''Stable with potential slow progression''
      | Mild \<Rightarrow> ''Early stage - monitor closely''
      | Normal \<Rightarrow> ''Normal variation - no progression detected'')"

definition generateEMGInsights :: "ProcessedEMGFeatures \<Rightarrow> Insights" where
  "generateEMGInsights features =
     (let (p, c) =
        (if fgt (severityIndex features) (Val 70) then
           (Severe, Math_min (Val 0.95)
                      (fadd (Val 0.7) (fdiv (signalVariance features) (Val 1000))))
         else if fgt (severityIndex features) (Val 40) then
           (Moderate, Math_min (Val 0.90)
                        (fadd (Val 0.6) (fdiv (dominantFrequency features) (Val 15))))
         else if fgt (severityIndex features) (Val 20) then
           (Mild, Math_min (Val 0.85)
                    (fadd (Val 0.5) (fdiv (rmsAmplitude features) (Val 50))))
         else
           (Normal, Math_min (Val 0.80)
                      (fadd (Val 0.4) (fmul (zeroCrossingRate features) (Val 5)))))
      in \<lparr>pattern = p, confidence = c, recommendations = recommendations_for p,
          predictedProgression = progression_for p\<rparr>)"

section \<open>The firmware: spectrum, features, classifier, record\<close>

text \<open>
  Functions and fields that the firmware shares by name with the processing module carry
  the prefix \<open>fw_\<close> here. \<open>extractFeatures\<close> takes the window as a list; its \<open>length\<close>
  argument is the length of that list.
\<close>

definition SAMPLES :: nat where
  "SAMPLES = 256"

definition SAMPLE_RATE :: nat where
  "SAMPLE_RATE = 200"

definition WINDOW_SIZE :: nat where
  "WINDOW_SIZE = 128"

text \<open>
  The firmware's \<open>simpleFFT\<close> fills \<open>magnitude[0 .. n / 2 - 1]\<close>, \<open>n / 2\<close> an integer
  quotient; the list returned is that part of the buffer.
\<close>

definition fw_fft_sum :: "number list \<Rightarrow> number \<Rightarrow> number \<times> number" where
  "fw_fft_sum data freq =
     foldl (\<lambda>(re, im) t.
              let angle = fdiv (fmul (fmul (fmul (Val (- 2)) (Val pi)) freq) (Val (real t)))
                               (Val (real SAMPLE_RATE))
              in (fadd re (fmul (data ! t) (fcos angle)),
                  fadd im (fmul (data ! t) (fsin angle))))
           (Val 0, Val 0) [0..<length data]"

definition fw_bin_frequency :: "nat \<Rightarrow> nat \<Rightarrow> number" where
  "fw_bin_frequency n k = fdiv (fmul (Val (real k)) (Val (real SAMPLE_RATE))) (Val (real n))"

definition fw_simpleFFT :: "number list \<Rightarrow> number list" where
  "fw_simpleFFT data =
     (let n = length data
      in map (\<lambda>k. let (re, im) = fw_fft_sum data (fw_bin_frequency n k)
                   in fsqrt (fadd (fmul re re) (fmul im im)))
             [0..<n div 2])"

record TremorFeatures =
  fw_meanAmplitude :: number
  fw_rmsAmplitude :: number
  fw_dominantFrequency :: number
  fw_frequencyPower :: number
  fw_spectralCentroid :: number
  fw_zeroCrossingRate :: number
  fw_signalEnergy :: number
  fw_entropy :: number

definition fw_zero_features :: TremorFeatures where
  "fw_zero_features =
     \<lparr>fw_meanAmplitude = Val 0, fw_rmsAmplitude = Val 0, fw_dominantFrequency = Val 0,
      fw_frequencyPower = Val 0, fw_spectralCentroid = Val 0, fw_zeroCrossingRate = Val 0,
      fw_signalEnergy = Val 0, fw_entropy = Val 0\<rparr>"

text \<open>The blocks of \<open>extractFeatures\<close>, in the order of the source.\<close>

definition fw_mean :: "number list \<Rightarrow> number" where
  "fw_mean signal =
     fdiv (foldl (\<lambda>acc x. fadd acc (fabs x)) (Val 0) signal) (Val (real (length signal)))"

definition fw_rms :: "number list \<Rightarrow> number" where
  "fw_rms signal =
     fsqrt (fdiv (foldl (\<lambda>acc x. fadd acc (fmul x x)) (Val 0) signal)
                 (Val (real (length signal))))"

definition fw_zcr :: "number list \<Rightarrow> number" where
  "fw_zcr signal = fdiv (Val (real (zeroCrossings signal))) (Val (real (length signal)))"

definition fw_dominant :: "number list \<Rightarrow> number \<times> nat \<times> number" where
  "fw_dominant signal =
     (let n = length signal
      in foldl (dominant_step (fw_simpleFFT signal) (fw_bin_frequency n)) (Val 0, 0, Val 0)
               [1..<n div 2])"

definition fw_centroid :: "number list \<Rightarrow> number" where
  "fw_centroid signal =
     (let n = length signal;
          (maxMagnitude, dominantFreqBin, totalPower) = fw_dominant signal;
          weightedSum = foldl (centroid_step (fw_simpleFFT signal) (fw_bin_frequency n)) (Val 0)
                              [1..<n div 2]
      in if fgt totalPower (Val 0) then fdiv weightedSum totalPower else Val 0)"

text \<open>
  The entropy loop divides every sample's magnitude by the RMS amplitude;
  \<open>entropy_normalized\<close> is the quotient it computes for one sample.
\<close>

definition entropy_normalized :: "number \<Rightarrow> number \<Rightarrow> number" where
  "entropy_normalized rms x = fdiv (fabs x) rms"

definition entropy_step :: "number \<Rightarrow> number \<Rightarrow> number \<Rightarrow> number" where
  "entropy_step rms entropy x =
     (let normalized = entropy_normalized rms x
      in if fgt normalized (Val 0.001)
         then fsub entropy (fmul normalized (flog normalized))
         else entropy)"

definition fw_entropy_of :: "number list \<Rightarrow> number" where
  "fw_entropy_of signal = foldl (entropy_step (fw_rms signal)) (Val 0) signal"

definition extractFeatures :: "number list \<Rightarrow> TremorFeatures" where
  "extractFeatures signal =
     (let rms = fw_rms signal;
          (maxMagnitude, dominantFreqBin, totalPower) = fw_dominant signal
      in \<lparr>fw_meanAmplitude = fw_mean signal,
          fw_rmsAmplitude = rms,
          fw_dominantFrequency = fw_bin_frequency (length signal) dominantFreqBin,
          fw_frequencyPower = totalPower,
          fw_spectralCentroid = fw_centroid signal,
          fw_zeroCrossingRate = fw_zcr signal,
          fw_signalEnergy = fmul rms rms,
          fw_entropy = fw_entropy_of signal\<rparr>)"

record MLModel =
  weights :: "number list"
  bias :: number

definition tremorModel :: MLModel where
  "tremorModel =
     \<lparr>weights = [Val 0.1, Val (- 0.2), Val 0.3, Val (- 0.1), Val 0.2,
                 Val 0.15, Val (- 0.25), Val 0.05, Val 0.1, Val (- 0.05)],
      bias = Val 0.5\<rparr>"

definition normalizedFeatures :: "TremorFeatures \<Rightarrow> number list" where
  "normalizedFeatures features =
     [fdiv (fw_meanAmplitude features) (Val 100.0),
      fdiv (fw_rmsAmplitude features) (Val 100.0),
      fdiv (fw_dominantFrequency features) (Val 10.0),
      fdiv (fw_frequencyPower features) (Val 1000.0),
      fdiv (fw_spectralCentroid features) (Val 10.0),
      fmul (fw_zeroCrossingRate features) (Val 10.0),
      fdiv (fw_signalEnergy features) (Val 10000.0),
      fdiv (fw_entropy features) (Val 10.0),
      (if fge (fw_dominantFrequency features) (Val 3) \<and> fle (fw_dominantFrequency features) (Val 8)
       then Val 1.0 else Val 0.0),
      (if fgt (fw_rmsAmplitude features) (Val 10) then Val 1.0 else Val 0.0)]"

text \<open>
  The forward pass: \<open>output\<close> starts at the bias and adds the ten products in order. Here
  the weights are the decimal values and the sums are exact; \<open>forward_pass_float\<close> below is
  the same loop with the roundings of the firmware's \<open>float\<close> variables.
\<close>

definition forward_pass :: "TremorFeatures \<Rightarrow> number" where
  "forward_pass features =
     foldl (\<lambda>output i. fadd output (fmul (normalizedFeatures features ! i) (weights tremorModel ! i)))
           (bias tremorModel) [0..<10]"

definition classifyTremor :: "TremorFeatures \<Rightarrow> pattern" where
  "classifyTremor features =
     (let output = forward_pass features
      in if fgt output (Val 0.7) then Severe
         else if fgt output (Val 0.4) then Moderate
         else if fgt output (Val 0.1) then Mild
         else Normal)"

definition generateInsights :: "TremorFeatures \<Rightarrow> pattern \<Rightarrow> Insights" where
  "generateInsights features classification =
     \<lparr>pattern = classification,
      confidence = std_min (Val 0.95) (fadd (Val 0.7) (fdiv (fw_entropy features) (Val 20.0))),
      recommendations = recommendations_for classification,
      predictedProgression = progression_for classification\<rparr>"

text \<open>
  The fields of the JSON payload that \<open>processTremorData\<close> computes from the features
  (device id, time stamp, battery level and the echoed samples are left out).
\<close>

record Payload =
  payload_frequency :: number
  payload_amplitude :: number
  payload_severityIndex :: number
  payload_aiInsights :: Insights

text \<open>The smoothing of the two amplitudes against the static \<open>prevFeatures\<close>.\<close>

definition smooth :: "TremorFeatures \<Rightarrow> TremorFeatures \<Rightarrow> TremorFeatures" where
  "smooth prevFeatures features =
     (let f1 = features\<lparr>fw_meanAmplitude :=
                 fadd (fmul (Val 0.8) (fw_meanAmplitude prevFeatures))
                      (fmul (Val 0.2) (fw_meanAmplitude features))\<rparr>
      in f1\<lparr>fw_rmsAmplitude :=
                 fadd (fmul (Val 0.8) (fw_rmsAmplitude prevFeatures))
                      (fmul (Val 0.2) (fw_rmsAmplitude f1))\<rparr>)"

text \<open>What \<open>processTremorData\<close> does with the smoothed features.\<close>

definition payload_of :: "TremorFeatures \<Rightarrow> Payload" where
  "payload_of features =
     (let classification = classifyTremor features;
          insights = generateInsights features classification
      in \<lparr>payload_frequency = fw_dominantFrequency features,
          payload_amplitude = fw_rmsAmplitude features,
          payload_severityIndex =
            std_min (Val 100.0) (std_max (Val 0.0)
              (fadd (fmul (fw_rmsAmplitude features) (Val 10))
                    (fmul (fw_dominantFrequency features) (Val 2)))),
          payload_aiInsights = insights\<rparr>)"

text \<open>
  \<open>processTremorData\<close> on the sample buffer, its fill index and the previous smoothed
  features: nothing before the buffer is full; otherwise the payload, the new previous
  features and the fill index reset to zero.
\<close>

definition processTremorData ::
  "number list \<Rightarrow> nat \<Rightarrow> TremorFeatures \<Rightarrow> (Payload \<times> TremorFeatures \<times> nat) option" where
  "processTremorData emgBuffer bufferIndex prevFeatures =
     (if bufferIndex < SAMPLES then None
      else
        let windowBuffer = take WINDOW_SIZE (drop (bufferIndex - WINDOW_SIZE) emgBuffer);
            features = smooth prevFeatures (extractFeatures windowBuffer)
        in Some (payload_of features, features, 0))"

section \<open>The classifier with the roundings of the firmware\<close>











section \<open>The score as the specification words it\<close>

text \<open>
  \<open>score = bias + \<Sum> weight_i * normalizedFeature_i\<close>: the sum of the ten products,
  added to the bias.
\<close>

fun fsum :: "number list \<Rightarrow> number" where
  "fsum [] = Val 0"
| "fsum (x # xs) = fadd x (fsum xs)"

definition weighted_score :: "TremorFeatures \<Rightarrow> number" where
  "weighted_score features =
     fadd (bias tremorModel)
          (fsum (map (\<lambda>i. fmul (weights tremorModel ! i) (normalizedFeatures features ! i))
                     [0..<10]))"

section \<open>Auxiliary notions\<close>

text \<open>
  What a square root, a magnitude or a sum of them can be: a real that is not negative,
  plus infinity, or \<open>NaN\<close>.
\<close>

fun not_negative :: "number \<Rightarrow> bool" where
  "not_negative (Val r) = (0 \<le> r)"
| "not_negative PosInf = True"
| "not_negative NegInf = False"
| "not_negative NaN = True"

text \<open>The reference formula of the severity index, on real values.\<close>

definition clamp_severity :: "real \<Rightarrow> real \<Rightarrow> real" where
  "clamp_severity rms freq = min 100 (max 0 (rms * 10 + freq * 2))"

text \<open>
  Equal, or two real values in order: the relation in which the score grows with a
  feature.
\<close>

definition same_or_below :: "number \<Rightarrow> number \<Rightarrow> bool" where
  "same_or_below x y = (x = y \<or> (is_finite x \<and> is_finite y \<and> fle x y))"

text \<open>The feature record with every normalised feature at one half, but for the frequency.\<close>

definition mid_range :: "real \<Rightarrow> TremorFeatures" where
  "mid_range d =
     \<lparr>fw_meanAmplitude = Val 50, fw_rmsAmplitude = Val 50, fw_dominantFrequency = Val d,
      fw_frequencyPower = Val 500, fw_spectralCentroid = Val 5, fw_zeroCrossingRate = Val 0.05,
      fw_signalEnergy = Val 5000, fw_entropy = Val 5\<rparr>"

text \<open>
  The test window of the round-trip property: 256 samples of a 5 Hz sine wave taken at
  200 Hz, of any amplitude and phase.
\<close>

definition sine_window :: "real \<Rightarrow> real \<Rightarrow> number list" where
  "sine_window A p = map (\<lambda>t. Val (A * sin (2 * pi * 5 * real t / 200 + p))) [0..<256]"

text \<open>The real samples of that window, and the magnitude of its spectrum at bin \<open>k\<close>.\<close>

definition sine_samples :: "real \<Rightarrow> real \<Rightarrow> real list" where
  "sine_samples A p = map (\<lambda>t. A * sin (2 * pi * 5 * real t / 200 + p)) [0..<256]"

definition sine_bin :: "real \<Rightarrow> real \<Rightarrow> nat \<Rightarrow> real" where
  "sine_bin A p k =
     cmod (\<Sum>t<256. of_real (A * sin (pi / 20 * real t + p)) * cis (- (pi * real k / 128 * real t)))"

section \<open>Facts about the numbers\<close>

lemma fadd_commute: "fadd x y = fadd y x"
  by (cases x; cases y) simp_all

lemma fadd_assoc: "fadd (fadd x y) z = fadd x (fadd y z)"
  by (cases x; cases y; cases z) simp_all

lemma fadd_zero_right: "fadd x (Val 0) = x"
  by (cases x) simp_all

lemma fmul_commute: "fmul x y = fmul y x"
  by (cases x; cases y) (simp_all add: signed_inf_def)

lemma not_finite_fadd_left: "\<not> is_finite u \<Longrightarrow> \<not> is_finite (fadd u v)"
  by (cases u; cases v) simp_all

lemma not_finite_fadd_right: "\<not> is_finite v \<Longrightarrow> \<not> is_finite (fadd u v)"
  by (cases u; cases v) simp_all

lemma not_finite_fneg: "\<not> is_finite v \<Longrightarrow> \<not> is_finite (fneg v)"
  by (cases v) simp_all

lemma not_finite_fsub_left: "\<not> is_finite u \<Longrightarrow> \<not> is_finite (fsub u v)"
  by (simp add: fsub_def not_finite_fadd_left)

lemma not_finite_fsub_right: "\<not> is_finite v \<Longrightarrow> \<not> is_finite (fsub u v)"
  by (simp add: fsub_def not_finite_fadd_right not_finite_fneg)

lemma not_finite_fmul_right: "\<not> is_finite v \<Longrightarrow> \<not> is_finite (fmul u v)"
  by (cases u; cases v) (simp_all add: signed_inf_def)

lemmas not_finite_intros =
  not_finite_fadd_left not_finite_fadd_right not_finite_fsub_left not_finite_fsub_right
  not_finite_fmul_right

section \<open>The filter\<close>

lemma filter_sample_history:
  "snd (filter_sample f x) = \<lparr>history0 = x, history1 = history0 f, history2 = history1 f\<rparr>"
  by (simp add: filter_sample_def Let_def)

lemma filter_sample_output:
  "fst (filter_sample f x) =
     fsub (fsub (fadd (fadd (fmul (Val 0.0976) x) (fmul (Val 0.1952) (history0 f)))
                      (fmul (Val 0.0976) (history1 f)))
                (fmul (Val (- 0.9428)) (history0 f)))
          (fmul (Val 0.3333) (history1 f))"
  by (simp add: filter_sample_def Let_def filter_b_def filter_a_def)

lemma filter_sample_cong:
  "history0 f = history0 g \<Longrightarrow> history1 f = history1 g \<Longrightarrow> filter_sample f x = filter_sample g x"
  by (simp add: prod_eq_iff filter_sample_history filter_sample_output)

lemma filter_map_cong:
  assumes "history0 f = history0 g" and "history1 f = history1 g"
  shows "filter_map f xs = filter_map g xs"
proof (cases xs)
  case Nil
  then show ?thesis by simp
next
  case (Cons x xs')
  have "filter_sample f x = filter_sample g x"
    using assms by (rule filter_sample_cong)
  then show ?thesis using Cons by simp
qed

lemma filter_map_Cons:
  "filter_map f (x # xs) = fst (filter_sample f x) # filter_map (snd (filter_sample f x)) xs"
  by (simp add: case_prod_beta)

text \<open>
  What the processing module's filter computes on real values: a weighted sum of the
  sample and the two previous samples, with the weights \<open>b0\<close>, \<open>b1 - a1\<close> and \<open>b2 - a2\<close>.
\<close>

lemma filter_sample_real:
  assumes "history0 f = Val h0" and "history1 f = Val h1"
  shows "fst (filter_sample f (Val x)) = Val (0.0976 * x + 1.138 * h0 - 0.2357 * h1)"
  unfolding filter_sample_output using assms by (simp add: fsub_def)

text \<open>
  Claim C1. The claim: the filter's output is the recurrence
  \<open>y[n] = b0 x[n] + b1 x[n-1] + b2 x[n-2] - a1 y[n-1] - a2 y[n-2]\<close> over the previous two
  outputs. On the two samples \<open>1, 1\<close> fed to a fresh filter the recurrence gives
  \<open>0.0976, 0.38481728\<close>; the processing module's filter, which multiplies \<open>a1\<close> and \<open>a2\<close> with
  the previous inputs, gives \<open>0.0976, 1.2356\<close>, and the firmware's filter, whose denominator
  terms cancel, gives \<open>0.0976, 0.2928\<close>.
\<close>

theorem filter_differs_from_recurrence:
  "applyBandpassFilter [Val 1, Val 1] = [Val 0.0976, Val 1.2356]
   \<and> fw_filter_run new_ButterworthFilter [Val 1, Val 1] = [Val 0.0976, Val 0.2928]
   \<and> iir_recurrence [1, 1] = [0.0976, 0.38481728]"
  by (simp add: applyBandpassFilter_def new_ButterworthFilter_def filter_sample_def
      fw_applyBandpassFilter_def filter_b_def filter_a_def fsub_def iir_recurrence_def)

text \<open>
  Claim C6, as stated: a \<open>NaN\<close> or infinite sample is treated as zero. It is not: after a
  \<open>NaN\<close> the filter returns \<open>NaN\<close> three times, where a zero sample would have given
  \<open>0, 0.0976, 1.2356\<close>.
\<close>

theorem filter_nan_counterexample:
  "applyBandpassFilter [NaN, Val 1, Val 1, Val 1] = [NaN, NaN, NaN, Val 0.9999]
   \<and> applyBandpassFilter [Val 0, Val 1, Val 1, Val 1]
       = [Val 0, Val 0.0976, Val 1.2356, Val 0.9999]"
  by (simp add: applyBandpassFilter_def new_ButterworthFilter_def filter_sample_def
      filter_b_def filter_a_def fsub_def)

text \<open>
  Claim C6, amended. A sample that is \<open>NaN\<close> or infinite is stored in the history as it
  is; the output for that sample and for the next two samples is \<open>NaN\<close> or infinite; the
  outputs from the third following sample on are those the filter gives when the sample
  is replaced by zero, since the filter reads only the three latest inputs.
\<close>

theorem filter_keeps_non_finite_sample:
  assumes "\<not> is_finite x"
  shows "history0 (snd (filter_sample f x)) = x
       \<and> \<not> is_finite (filter_map f (x # x1 # x2 # rest) ! 0)
       \<and> \<not> is_finite (filter_map f (x # x1 # x2 # rest) ! 1)
       \<and> \<not> is_finite (filter_map f (x # x1 # x2 # rest) ! 2)
       \<and> drop 3 (filter_map f (x # x1 # x2 # rest))
           = drop 3 (filter_map f (Val 0 # x1 # x2 # rest))"
proof -
  have y0: "\<not> is_finite (fst (filter_sample f x))"
    unfolding filter_sample_output using assms by (simp add: not_finite_intros)
  have y1: "\<not> is_finite (fst (filter_sample (snd (filter_sample f x)) x1))"
    unfolding filter_sample_output filter_sample_history using assms
    by (simp add: not_finite_intros)
  have y2: "\<not> is_finite
              (fst (filter_sample (snd (filter_sample (snd (filter_sample f x)) x1)) x2))"
    unfolding filter_sample_output filter_sample_history using assms
    by (simp add: not_finite_intros)
  have later:
    "filter_map (snd (filter_sample (snd (filter_sample (snd (filter_sample f x)) x1)) x2)) rest
     = filter_map
         (snd (filter_sample (snd (filter_sample (snd (filter_sample f (Val 0))) x1)) x2)) rest"
    by (rule filter_map_cong) (simp_all add: filter_sample_history)
  show ?thesis
    using y0 y1 y2 later
    by (simp add: filter_map_Cons filter_sample_history del: filter_map.simps)
qed

theorem filter_keeps_non_finite_sample_witness:
  "\<not> is_finite PosInf
   \<and> filter_map new_ButterworthFilter [PosInf, Val 1, Val 1, Val 1]
       = [PosInf, PosInf, NaN, Val 0.9999]
   \<and> drop 3 (filter_map new_ButterworthFilter [Val 0, Val 1, Val 1, Val 1]) = [Val 0.9999]"
  using filter_keeps_non_finite_sample [of PosInf new_ButterworthFilter "Val 1" "Val 1" "[Val 1]"]
  by (simp add: new_ButterworthFilter_def filter_sample_def filter_b_def filter_a_def fsub_def
      signed_inf_def)

section \<open>The empty signal\<close>

text \<open>
  Claim C10. For the empty signal \<open>extractEMGFeatures\<close> returns the record whose ten
  fields are all zero, whatever the sample rate.
\<close>

theorem extractEMGFeatures_empty:
  "extractEMGFeatures [] sampleRate =
     \<lparr>frequency = Val 0, amplitude = Val 0, severityIndex = Val 0, dominantFrequency = Val 0,
      spectralCentroid = Val 0, signalEnergy = Val 0, zeroCrossingRate = Val 0,
      rmsAmplitude = Val 0, meanAmplitude = Val 0, signalVariance = Val 0\<rparr>"
  by (simp add: extractEMGFeatures_def zero_features_def)

section \<open>The weighted-score classifier\<close>

text \<open>
  On exact real numbers the forward pass is the bias plus the sum of the ten products, and
  the class is read off that sum.
\<close>

lemma foldl_fadd_fsum: "foldl (\<lambda>acc i. fadd acc (g i)) z is = fadd z (fsum (map g is))"
  by (induction "is" arbitrary: z) (simp_all add: fadd_zero_right fadd_assoc)

lemma forward_pass_weighted_score: "forward_pass features = weighted_score features"
  unfolding forward_pass_def weighted_score_def foldl_fadd_fsum
  by (simp add: fmul_commute)

lemma classifyTremor_by_score:
  "classifyTremor features =
     (if fgt (weighted_score features) (Val 0.7) then Severe
      else if fgt (weighted_score features) (Val 0.4) then Moderate
      else if fgt (weighted_score features) (Val 0.1) then Mild
      else Normal)"
  by (simp add: classifyTremor_def forward_pass_weighted_score Let_def)


section \<open>Feature extraction\<close>

subsection \<open>Sums over real samples\<close>

lemma foldl_fadd_Val:
  assumes "\<And>x. g (Val x) = Val (h x)"
  shows "foldl (\<lambda>acc v. fadd acc (g v)) (Val z) (map Val xs) = Val (z + sum_list (map h xs))"
  by (induction xs arbitrary: z) (simp_all add: assms add.assoc)

lemma sum_list_squares_nonneg: "0 \<le> sum_list (map (\<lambda>x::real. x * x) xs)"
  by (induction xs) simp_all

lemma emg_rmsAmplitude_Val:
  "xs \<noteq> [] \<Longrightarrow>
   emg_rmsAmplitude (map Val xs) = Val (sqrt (sum_list (map (\<lambda>x. x * x) xs) / real (length xs)))"
  unfolding emg_rmsAmplitude_def
  by (subst foldl_fadd_Val [where h = "\<lambda>x. x * x"])
     (simp_all add: sum_list_squares_nonneg not_less)

lemma fw_rms_eq: "fw_rms signal = emg_rmsAmplitude signal"
  by (simp add: fw_rms_def emg_rmsAmplitude_def)

lemma fw_zcr_eq: "fw_zcr signal = emg_zeroCrossingRate signal"
  by (simp add: fw_zcr_def emg_zeroCrossingRate_def)

lemma emg_zeroCrossingRate_Val:
  "xs \<noteq> [] \<Longrightarrow>
   emg_zeroCrossingRate (map Val xs) = Val (real (zeroCrossings (map Val xs)) / real (length xs))"
  by (simp add: emg_zeroCrossingRate_def)

lemma zeroCrossings_le: "zeroCrossings signal \<le> length signal"
  unfolding zeroCrossings_def
  by (rule order_trans [OF length_filter_le]) simp

subsection \<open>The dominant-bin loop\<close>

lemma in_tremor_band_Val: "in_tremor_band x \<Longrightarrow> \<exists>f. x = Val f \<and> 3 \<le> f \<and> f \<le> 12"
  by (cases x) (auto simp: in_tremor_band_def fge_def)

lemma dominant_step_cases:
  "dominant_step mag fr (mx, bin, tp) i = (mx1, bin1, tp1) \<Longrightarrow>
   bin1 = bin \<or> (bin1 = i \<and> in_tremor_band (fr i))"
  by (auto simp: dominant_step_def Let_def split: if_splits)

lemma dominant_bin:
  "foldl (dominant_step mag fr) (mx, bin, tp) js = (mx', bin', tp') \<Longrightarrow>
   bin' = bin \<or> (bin' \<in> set js \<and> in_tremor_band (fr bin'))"
proof (induction js arbitrary: mx bin tp)
  case Nil
  then show ?case by simp
next
  case (Cons i js)
  obtain mx1 bin1 tp1 where s: "dominant_step mag fr (mx, bin, tp) i = (mx1, bin1, tp1)"
    by (cases "dominant_step mag fr (mx, bin, tp) i") auto
  with Cons.prems have "foldl (dominant_step mag fr) (mx1, bin1, tp1) js = (mx', bin', tp')"
    by simp
  from Cons.IH [OF this] dominant_step_cases [OF s] show ?case by auto
qed

lemma not_negative_fsqrt: "not_negative (fsqrt x)"
  by (cases x) simp_all

lemma not_negative_fadd: "not_negative x \<Longrightarrow> not_negative y \<Longrightarrow> not_negative (fadd x y)"
  by (cases x; cases y) simp_all

lemma not_negative_fadd_zero:
  "not_negative x \<Longrightarrow> not_negative y \<Longrightarrow> fadd x y = Val 0 \<Longrightarrow> x = Val 0 \<and> y = Val 0"
  by (cases x; cases y) auto

lemma not_negative_not_below: "not_negative x \<Longrightarrow> \<not> fgt (Val 0) x"
  by (cases x) (auto simp: fgt_def)

lemma dominant_zero_power:
  assumes "\<forall>i\<in>set js. not_negative (mag ! i)"
    and "not_negative tp" and "\<not> fgt (Val 0) mx"
    and "foldl (dominant_step mag fr) (mx, bin, tp) js = (mx', bin', Val 0)"
  shows "mx' = mx \<and> bin' = bin \<and> tp = Val 0"
  using assms
proof (induction js arbitrary: mx bin tp)
  case Nil
  then show ?case by simp
next
  case (Cons i js)
  have nn: "not_negative (mag ! i)" using Cons.prems(1) by simp
  show ?case
  proof (cases "in_tremor_band (fr i)")
    case False
    then have "dominant_step mag fr (mx, bin, tp) i = (mx, bin, tp)"
      by (simp add: dominant_step_def)
    with Cons show ?thesis by simp
  next
    case True
    let ?tp1 = "fadd tp (mag ! i)"
    obtain mx1 bin1 where s: "dominant_step mag fr (mx, bin, tp) i = (mx1, bin1, ?tp1)"
      and m: "mx1 = mx \<or> mx1 = mag ! i"
      using True by (cases "fgt (mag ! i) mx") (auto simp: dominant_step_def Let_def)
    have "\<not> fgt (Val 0) mx1"
      using m Cons.prems(3) nn by (auto simp: not_negative_not_below)
    moreover have "foldl (dominant_step mag fr) (mx1, bin1, ?tp1) js = (mx', bin', Val 0)"
      using Cons.prems(4) s by simp
    moreover have "not_negative ?tp1"
      using Cons.prems(2) nn by (rule not_negative_fadd)
    ultimately have r: "mx' = mx1 \<and> bin' = bin1 \<and> ?tp1 = Val 0"
      using Cons.IH [where mx = mx1 and bin = bin1 and tp = "?tp1"] Cons.prems(1) by simp
    then have z: "tp = Val 0 \<and> mag ! i = Val 0"
      using not_negative_fadd_zero [OF Cons.prems(2) nn] by simp
    then have "\<not> fgt (mag ! i) mx"
      using Cons.prems(3) by simp
    then have "dominant_step mag fr (mx, bin, tp) i = (mx, bin, ?tp1)"
      using True by (simp add: dominant_step_def Let_def)
    with s r z show ?thesis by simp
  qed
qed


subsection \<open>The dominant frequency\<close>

lemma simpleFFT_length: "length (fst (simpleFFT data sr)) = (length data + 1) div 2"
  by (simp add: simpleFFT_def Let_def)

lemma simpleFFT_magnitude_not_negative:
  "i < (length data + 1) div 2 \<Longrightarrow> not_negative (fst (simpleFFT data sr) ! i)"
  by (simp add: simpleFFT_def Let_def case_prod_beta not_negative_fsqrt)

lemma simpleFFT_frequency:
  "i < (length data + 1) div 2 \<Longrightarrow>
   snd (simpleFFT data sr) ! i = fdiv (fmul (Val (real i)) sr) (Val (real (length data)))"
  by (simp add: simpleFFT_def Let_def)

lemma emg_dominant_eq:
  "emg_dominant signal sr =
     foldl (dominant_step (fst (simpleFFT signal sr)) (\<lambda>i. snd (simpleFFT signal sr) ! i))
       (Val 0, 0, Val 0) [1..<(length signal + 1) div 2]"
  by (simp add: emg_dominant_def case_prod_beta simpleFFT_length)

lemma emg_dominantFrequency_eq:
  "emg_dominantFrequency signal sr =
     js_or (snd (simpleFFT signal sr) ! fst (snd (emg_dominant signal sr))) (Val 0)"
  by (simp add: emg_dominantFrequency_def case_prod_beta)

lemma zero_bin_frequency:
  "n \<noteq> 0 \<Longrightarrow> js_or (fdiv (fmul (Val 0) sr) (Val (real n))) (Val 0) = Val 0"
  by (cases sr) (simp_all add: js_or_def)

lemma js_or_in_band: "in_tremor_band x \<Longrightarrow> js_or x (Val 0) = x"
  by (cases x) (auto simp: js_or_def in_tremor_band_def fge_def)

lemma emg_dominantFrequency_cases:
  assumes "signal \<noteq> []"
  shows "emg_dominantFrequency signal sr = Val 0 \<or> in_tremor_band (emg_dominantFrequency signal sr)"
proof -
  obtain mx bin tp where d: "emg_dominant signal sr = (mx, bin, tp)"
    by (cases "emg_dominant signal sr") auto
  let ?fa = "snd (simpleFFT signal sr)"
  have nb: "0 < (length signal + 1) div 2" using assms by (cases signal) simp_all
  from d have "bin = 0 \<or> (bin \<in> set [1..<(length signal + 1) div 2] \<and> in_tremor_band (?fa ! bin))"
    unfolding emg_dominant_eq by (rule dominant_bin)
  then show ?thesis
  proof
    assume "bin = 0"
    then have "emg_dominantFrequency signal sr = Val 0"
      using assms nb by (simp add: emg_dominantFrequency_eq d simpleFFT_frequency zero_bin_frequency)
    then show ?thesis ..
  next
    assume "bin \<in> set [1..<(length signal + 1) div 2] \<and> in_tremor_band (?fa ! bin)"
    then have "in_tremor_band (emg_dominantFrequency signal sr)"
      by (simp add: emg_dominantFrequency_eq d js_or_in_band)
    then show ?thesis ..
  qed
qed

lemma fw_bin_frequency_zero: "n \<noteq> 0 \<Longrightarrow> fw_bin_frequency n 0 = Val 0"
  by (simp add: fw_bin_frequency_def)

lemma fw_dominantFrequency_eq:
  "fw_dominantFrequency (extractFeatures signal) =
     fw_bin_frequency (length signal) (fst (snd (fw_dominant signal)))"
  by (simp add: extractFeatures_def Let_def case_prod_beta)

lemma fw_dominantFrequency_cases:
  assumes "signal \<noteq> []"
  shows "fw_dominantFrequency (extractFeatures signal) = Val 0
       \<or> in_tremor_band (fw_dominantFrequency (extractFeatures signal))"
proof -
  obtain mx bin tp where d: "fw_dominant signal = (mx, bin, tp)"
    by (cases "fw_dominant signal") auto
  then have "bin = 0 \<or> (bin \<in> set [1..<length signal div 2]
               \<and> in_tremor_band (fw_bin_frequency (length signal) bin))"
    unfolding fw_dominant_def Let_def by (rule dominant_bin)
  then show ?thesis
    using assms by (auto simp: fw_dominantFrequency_eq d fw_bin_frequency_zero)
qed

subsection \<open>The entropy\<close>

lemma entropy_step_unit: "0 < c \<Longrightarrow> \<bar>x\<bar> = c \<Longrightarrow> entropy_step (Val c) (Val e) (Val x) = Val e"
  by (simp add: entropy_step_def entropy_normalized_def fgt_def fsub_def)

lemma entropy_step_zero: "entropy_step (Val 0) e (Val 0) = e"
  by (simp add: entropy_step_def entropy_normalized_def fgt_def)

lemma entropy_fold_unit:
  "0 < c \<Longrightarrow> \<forall>x\<in>set xs. \<bar>x\<bar> = c \<Longrightarrow> foldl (entropy_step (Val c)) (Val e) (map Val xs) = Val e"
  by (induction xs) (simp_all add: entropy_step_unit)

lemma entropy_fold_zero:
  "\<forall>x\<in>set xs. x = Val 0 \<Longrightarrow> foldl (entropy_step (Val 0)) e xs = e"
  by (induction xs) (simp_all add: entropy_step_zero)

lemma sum_list_const_squares:
  "\<forall>x\<in>set xs. \<bar>x\<bar> = (c::real) \<Longrightarrow> sum_list (map (\<lambda>x. x * x) xs) = real (length xs) * (c * c)"
proof (induction xs)
  case Nil
  then show ?case by simp
next
  case (Cons x xs)
  have "x * x = c * c"
    using Cons.prems by (metis abs_mult_self_eq list.set_intros(1))
  with Cons show ?case by (simp add: algebra_simps)
qed

lemma rms_const:
  assumes "xs \<noteq> []" and "\<forall>x\<in>set xs. \<bar>x\<bar> = c"
  shows "emg_rmsAmplitude (map Val xs) = Val \<bar>c\<bar>"
proof -
  have "sum_list (map (\<lambda>x. x * x) xs) / real (length xs) = c * c"
    using assms(1) by (simp add: sum_list_const_squares [OF assms(2)])
  then show ?thesis
    using assms(1) by (simp add: emg_rmsAmplitude_Val)
qed

lemma fw_entropy_const:
  assumes "xs \<noteq> []" and "\<forall>x\<in>set xs. \<bar>x\<bar> = c"
  shows "fw_entropy_of (map Val xs) = Val 0"
proof (cases "c = 0")
  case True
  then have "\<forall>v\<in>set (map Val xs). v = Val 0" using assms(2) by auto
  then show ?thesis
    using rms_const [OF assms] True
    by (simp add: fw_entropy_of_def fw_rms_eq entropy_fold_zero)
next
  case False
  obtain x where "x \<in> set xs" using assms(1) by (cases xs) auto
  then have "0 \<le> c" using assms(2) by auto
  with False have "0 < c" by simp
  then show ?thesis
    using rms_const [OF assms] assms(2)
    by (simp add: fw_entropy_of_def fw_rms_eq entropy_fold_unit)
qed

subsection \<open>Ranges of the features\<close>

lemma mean_square_nonneg: "0 \<le> sum_list (map (\<lambda>x::real. x * x) xs) / real (length xs)"
  by (simp add: sum_list_squares_nonneg)

lemma emg_rmsAmplitude_nonneg: "xs \<noteq> [] \<Longrightarrow> fge (emg_rmsAmplitude (map Val xs)) (Val 0)"
  by (simp add: emg_rmsAmplitude_Val fge_def mean_square_nonneg)

lemma emg_rmsAmplitude_fge: "fge (rmsAmplitude (extractEMGFeatures (map Val xs) sr)) (Val 0)"
  by (cases "xs = []")
     (simp_all add: extractEMGFeatures_def zero_features_def Let_def emg_rmsAmplitude_nonneg,
      simp add: fge_def)

lemma emg_dominantFrequency_field:
  "dominantFrequency (extractEMGFeatures signal sr) = Val 0
   \<or> in_tremor_band (dominantFrequency (extractEMGFeatures signal sr))"
  using emg_dominantFrequency_cases [of signal sr]
  by (cases "signal = []") (simp_all add: extractEMGFeatures_def zero_features_def Let_def)

lemma fw_rmsAmplitude_field: "fw_rmsAmplitude (extractFeatures signal) = emg_rmsAmplitude signal"
  by (simp add: extractFeatures_def Let_def case_prod_beta fw_rms_eq)

lemma fw_entropy_field: "fw_entropy (extractFeatures signal) = fw_entropy_of signal"
  by (simp add: extractFeatures_def Let_def case_prod_beta)

text \<open>
  Claim C2, amended. For every window of real samples the processing module's RMS
  amplitude is at least \<open>0\<close> and its dominant frequency is \<open>0\<close> or within \<open>[3, 12]\<close>; the same
  holds for the firmware on every window that is not empty. (Nothing of the kind holds for
  the firmware's entropy, which can be negative.)
\<close>

theorem feature_invariants:
  "fge (rmsAmplitude (extractEMGFeatures (map Val xs) sr)) (Val 0)
   \<and> (dominantFrequency (extractEMGFeatures (map Val xs) sr) = Val 0
      \<or> fge (dominantFrequency (extractEMGFeatures (map Val xs) sr)) (Val 3)
        \<and> fle (dominantFrequency (extractEMGFeatures (map Val xs) sr)) (Val 12))
   \<and> (xs \<noteq> [] \<longrightarrow>
        fge (fw_rmsAmplitude (extractFeatures (map Val xs))) (Val 0)
        \<and> (fw_dominantFrequency (extractFeatures (map Val xs)) = Val 0
           \<or> fge (fw_dominantFrequency (extractFeatures (map Val xs))) (Val 3)
             \<and> fle (fw_dominantFrequency (extractFeatures (map Val xs))) (Val 12)))"
proof -
  have "fge (fw_rmsAmplitude (extractFeatures (map Val xs))) (Val 0)" if "xs \<noteq> []"
    using that by (simp add: fw_rmsAmplitude_field emg_rmsAmplitude_nonneg)
  moreover have "fw_dominantFrequency (extractFeatures (map Val xs)) = Val 0
           \<or> fge (fw_dominantFrequency (extractFeatures (map Val xs))) (Val 3)
             \<and> fle (fw_dominantFrequency (extractFeatures (map Val xs))) (Val 12)" if "xs \<noteq> []"
    using that fw_dominantFrequency_cases [of "map Val xs"] by (simp add: in_tremor_band_def)
  ultimately show ?thesis
    using emg_rmsAmplitude_fge [of xs sr] emg_dominantFrequency_field [of "map Val xs" sr]
    by (simp add: in_tremor_band_def)
qed

subsection \<open>Zero power and zero amplitude\<close>

lemma not_negative_square: "not_negative (fmul x x)"
  by (cases x) simp_all

lemma square_zero: "fmul x x = Val 0 \<Longrightarrow> x = Val 0"
  by (cases x) (simp_all split: if_splits)

lemma sum_squares_zero:
  "not_negative tp \<Longrightarrow> foldl (\<lambda>acc x. fadd acc (fmul x x)) tp xs = Val 0 \<Longrightarrow>
   tp = Val 0 \<and> (\<forall>x\<in>set xs. x = Val 0)"
proof (induction xs arbitrary: tp)
  case Nil
  then show ?case by simp
next
  case (Cons x xs)
  have "not_negative (fadd tp (fmul x x))"
    using Cons.prems(1) by (simp add: not_negative_fadd not_negative_square)
  then have "fadd tp (fmul x x) = Val 0 \<and> (\<forall>x\<in>set xs. x = Val 0)"
    using Cons.IH Cons.prems(2) by simp
  then show ?case
    using not_negative_fadd_zero [OF Cons.prems(1) not_negative_square, of x] square_zero [of x]
    by simp
qed

lemma fsqrt_fdiv_zero: "fsqrt (fdiv s (Val n)) = Val 0 \<Longrightarrow> s = Val 0"
  by (cases s) (auto simp: signed_inf_def split: if_splits)

lemma rms_zero_samples:
  assumes "emg_rmsAmplitude signal = Val 0"
  shows "\<forall>x\<in>set signal. x = Val 0"
proof -
  have "foldl (\<lambda>acc x. fadd acc (fmul x x)) (Val 0) signal = Val 0"
    using assms unfolding emg_rmsAmplitude_def by (rule fsqrt_fdiv_zero)
  then show ?thesis
    using sum_squares_zero [of "Val 0" signal] by simp
qed

lemma fw_simpleFFT_not_negative:
  "i < length signal div 2 \<Longrightarrow> not_negative (fw_simpleFFT signal ! i)"
  by (simp add: fw_simpleFFT_def Let_def case_prod_beta not_negative_fsqrt)

lemma emg_zero_power:
  assumes "snd (snd (emg_dominant signal sr)) = Val 0"
  shows "emg_dominant signal sr = (Val 0, 0, Val 0)"
proof -
  obtain mx bin where d: "emg_dominant signal sr = (mx, bin, Val 0)"
    using assms by (cases "emg_dominant signal sr") auto
  have "mx = Val 0 \<and> bin = 0 \<and> Val 0 = Val 0"
    by (rule dominant_zero_power [OF _ _ _ d [unfolded emg_dominant_eq]])
       (simp_all add: simpleFFT_magnitude_not_negative fgt_def)
  with d show ?thesis by simp
qed

lemma fw_zero_power:
  assumes "snd (snd (fw_dominant signal)) = Val 0"
  shows "fw_dominant signal = (Val 0, 0, Val 0)"
proof -
  obtain mx bin where d: "fw_dominant signal = (mx, bin, Val 0)"
    using assms by (cases "fw_dominant signal") auto
  have "mx = Val 0 \<and> bin = 0 \<and> Val 0 = Val 0"
    by (rule dominant_zero_power [OF _ _ _ d [unfolded fw_dominant_def Let_def]])
       (simp_all add: fw_simpleFFT_not_negative fgt_def)
  with d show ?thesis by simp
qed

lemma fw_frequencyPower_field:
  "fw_frequencyPower (extractFeatures signal) = snd (snd (fw_dominant signal))"
  by (simp add: extractFeatures_def Let_def case_prod_beta)

lemma fw_spectralCentroid_field:
  "fw_spectralCentroid (extractFeatures signal) = fw_centroid signal"
  by (simp add: extractFeatures_def Let_def case_prod_beta)

text \<open>
  When the total power in the band is \<open>0\<close>, the spectral centroid and the dominant
  frequency are \<open>0\<close> (in the processing module for every signal, in the firmware for every
  window that is not empty): the centroid's division is guarded by a test of the total
  power. When the firmware's RMS amplitude is \<open>0\<close>, the entropy is \<open>0\<close>.
\<close>

lemma zero_power_guarded:
  "(snd (snd (emg_dominant signal sr)) = Val 0 \<longrightarrow>
      spectralCentroid (extractEMGFeatures signal sr) = Val 0
      \<and> dominantFrequency (extractEMGFeatures signal sr) = Val 0)
   \<and> (signal \<noteq> [] \<and> fw_frequencyPower (extractFeatures signal) = Val 0 \<longrightarrow>
      fw_spectralCentroid (extractFeatures signal) = Val 0
      \<and> fw_dominantFrequency (extractFeatures signal) = Val 0)
   \<and> (fw_rmsAmplitude (extractFeatures signal) = Val 0 \<longrightarrow>
      fw_entropy (extractFeatures signal) = Val 0)"
proof (intro conjI impI)
  assume z: "snd (snd (emg_dominant signal sr)) = Val 0"
  show "spectralCentroid (extractEMGFeatures signal sr) = Val 0"
    by (simp add: extractEMGFeatures_def zero_features_def Let_def emg_spectralCentroid_def
        case_prod_beta emg_zero_power [OF z] fgt_def)
  show "dominantFrequency (extractEMGFeatures signal sr) = Val 0"
  proof (cases "signal = []")
    case True
    then show ?thesis by (simp add: extractEMGFeatures_def zero_features_def)
  next
    case False
    then have "0 < (length signal + 1) div 2" by (cases signal) simp_all
    then show ?thesis
      using False
      by (simp add: extractEMGFeatures_def Let_def emg_dominantFrequency_eq emg_zero_power [OF z]
          simpleFFT_frequency zero_bin_frequency)
  qed
next
  assume a: "signal \<noteq> [] \<and> fw_frequencyPower (extractFeatures signal) = Val 0"
  then have z: "fw_dominant signal = (Val 0, 0, Val 0)"
    by (simp add: fw_frequencyPower_field fw_zero_power)
  show "fw_spectralCentroid (extractFeatures signal) = Val 0"
    by (simp add: fw_spectralCentroid_field fw_centroid_def Let_def z fgt_def)
  show "fw_dominantFrequency (extractFeatures signal) = Val 0"
    using a by (simp add: fw_dominantFrequency_eq z fw_bin_frequency_zero)
next
  assume r: "fw_rmsAmplitude (extractFeatures signal) = Val 0"
  then have all0: "\<forall>x\<in>set signal. x = Val 0"
    by (simp add: fw_rmsAmplitude_field rms_zero_samples)
  show "fw_entropy (extractFeatures signal) = Val 0"
    using r all0 by (simp add: fw_entropy_field fw_entropy_of_def fw_rms_eq
        fw_rmsAmplitude_field entropy_fold_zero)
qed

section \<open>The severity index\<close>

lemma emg_severityIndex_Val:
  "emg_severityIndex (Val r) (Val d) (Val z) =
     Val (min 100 (max 0 (r / 100 * 50 + d / 10 * 30 + z * 100 * 20)))"
  by (simp add: emg_severityIndex_def Math_min_def Math_max_def min_def max_def)

lemma emg_dominantFrequency_Val:
  "\<exists>d. dominantFrequency (extractEMGFeatures signal sr) = Val d"
  using emg_dominantFrequency_field [of signal sr] in_tremor_band_Val by blast

lemma payload_severityIndex_Val:
  assumes "fw_rmsAmplitude features = Val r" and "fw_dominantFrequency features = Val d"
  shows "payload_severityIndex (payload_of features) = Val (clamp_severity r d)"
  using assms
  by (simp add: payload_of_def Let_def std_min_def std_max_def clamp_severity_def min_def max_def)

text \<open>
  Claim C5, amended. The payload of \<open>processTremorData\<close> is computed from the smoothed
  features it keeps. In that payload the severity index is
  \<open>clamp(rms * 10 + freq * 2, 0, 100)\<close> of the amplitude and frequency it reports, when
  these are real values. In the processing module, on a signal of real samples that is
  not empty, it is \<open>clamp(rms / 100 * 50 + freq / 10 * 30 + zcr * 100 * 20, 0, 100)\<close>. On
  every signal of real samples it lies within \<open>[0, 100]\<close>.
\<close>

theorem severityIndex_formulas:
  "(fw_rmsAmplitude features = Val r \<and> fw_dominantFrequency features = Val d \<longrightarrow>
      payload_severityIndex (payload_of features) = Val (min 100 (max 0 (r * 10 + d * 2)))
      \<and> payload_amplitude (payload_of features) = Val r
      \<and> payload_frequency (payload_of features) = Val d
      \<and> fle (Val 0) (payload_severityIndex (payload_of features))
      \<and> fle (payload_severityIndex (payload_of features)) (Val 100))
   \<and> (xs \<noteq> [] \<longrightarrow>
      (\<exists>r d z. rmsAmplitude (extractEMGFeatures (map Val xs) sr) = Val r
         \<and> dominantFrequency (extractEMGFeatures (map Val xs) sr) = Val d
         \<and> zeroCrossingRate (extractEMGFeatures (map Val xs) sr) = Val z
         \<and> severityIndex (extractEMGFeatures (map Val xs) sr)
             = Val (min 100 (max 0 (r / 100 * 50 + d / 10 * 30 + z * 100 * 20)))))
   \<and> fle (Val 0) (severityIndex (extractEMGFeatures (map Val xs) sr))
   \<and> fle (severityIndex (extractEMGFeatures (map Val xs) sr)) (Val 100)
   \<and> (processTremorData emgBuffer bufferIndex prevFeatures = Some (payload, features, i) \<longrightarrow>
      payload = payload_of features)"
proof -
  have fw: "payload_severityIndex (payload_of features) = Val (min 100 (max 0 (r * 10 + d * 2)))
      \<and> payload_amplitude (payload_of features) = Val r
      \<and> payload_frequency (payload_of features) = Val d
      \<and> fle (Val 0) (payload_severityIndex (payload_of features))
      \<and> fle (payload_severityIndex (payload_of features)) (Val 100)"
    if "fw_rmsAmplitude features = Val r \<and> fw_dominantFrequency features = Val d"
    using that payload_severityIndex_Val [of features r d]
    by (simp add: clamp_severity_def) (simp add: payload_of_def Let_def)
  have ts: "\<exists>r d z. rmsAmplitude (extractEMGFeatures (map Val xs) sr) = Val r
         \<and> dominantFrequency (extractEMGFeatures (map Val xs) sr) = Val d
         \<and> zeroCrossingRate (extractEMGFeatures (map Val xs) sr) = Val z
         \<and> severityIndex (extractEMGFeatures (map Val xs) sr)
             = Val (min 100 (max 0 (r / 100 * 50 + d / 10 * 30 + z * 100 * 20)))"
    if ne: "xs \<noteq> []"
  proof -
    obtain d where d: "dominantFrequency (extractEMGFeatures (map Val xs) sr) = Val d"
      using emg_dominantFrequency_Val by blast
    then have d': "emg_dominantFrequency (map Val xs) sr = Val d"
      using ne by (simp add: extractEMGFeatures_def Let_def)
    show ?thesis
      using ne d'
      by (simp add: extractEMGFeatures_def Let_def emg_rmsAmplitude_Val emg_zeroCrossingRate_Val
          emg_severityIndex_Val)
  qed
  have range: "fle (Val 0) (severityIndex (extractEMGFeatures (map Val xs) sr))
     \<and> fle (severityIndex (extractEMGFeatures (map Val xs) sr)) (Val 100)"
  proof (cases "xs = []")
    case True
    then show ?thesis by (simp add: extractEMGFeatures_def zero_features_def)
  next
    case False
    from ts [OF this] show ?thesis by auto
  qed
  have run: "payload = payload_of features"
    if "processTremorData emgBuffer bufferIndex prevFeatures = Some (payload, features, i)"
    using that by (auto simp: processTremorData_def Let_def split: if_splits)
  from fw ts range run show ?thesis by blast
qed

text \<open>
  Claim C5, as stated, gives the one formula \<open>clamp(rms * 10 + freq * 2, 0, 100)\<close> for every
  record. On the one-sample signal \<open>1\<close> the processing module reports the amplitude \<open>1\<close>, the
  frequency \<open>0\<close> and the severity index \<open>0.5\<close>; the formula gives \<open>10\<close>.
\<close>

theorem severityIndex_counterexample:
  "rmsAmplitude (extractEMGFeatures [Val 1] (Val 200)) = Val 1
   \<and> dominantFrequency (extractEMGFeatures [Val 1] (Val 200)) = Val 0
   \<and> severityIndex (extractEMGFeatures [Val 1] (Val 200)) = Val 0.5
   \<and> clamp_severity 1 0 = 10"
  by (simp add: extractEMGFeatures_def Let_def emg_rmsAmplitude_def emg_zeroCrossingRate_def
        zeroCrossings_def emg_dominantFrequency_eq emg_dominant_eq simpleFFT_frequency
        js_or_def emg_severityIndex_Val clamp_severity_def)

section \<open>The class and the dominant frequency\<close>

lemma same_or_below_refl: "same_or_below x x"
  by (simp add: same_or_below_def)

lemma same_or_below_Val: "a \<le> b \<Longrightarrow> same_or_below (Val a) (Val b)"
  by (simp add: same_or_below_def)

lemma same_or_below_fadd:
  "same_or_below u v \<Longrightarrow> same_or_below x y \<Longrightarrow> same_or_below (fadd u x) (fadd v y)"
  by (cases u; cases v; cases x; cases y) (auto simp: same_or_below_def)

lemma same_or_below_class:
  assumes "same_or_below (weighted_score f) (weighted_score g)"
  shows "ordinal (classifyTremor f) \<le> ordinal (classifyTremor g)"
  using assms unfolding classifyTremor_by_score
  by (cases "weighted_score f"; cases "weighted_score g")
     (auto simp: same_or_below_def fgt_def)

lemma weighted_score_unfold:
  "weighted_score f =
     fadd (Val 0.5)
      (fadd (fmul (Val 0.1) (fdiv (fw_meanAmplitude f) (Val 100)))
      (fadd (fmul (Val (- 0.2)) (fdiv (fw_rmsAmplitude f) (Val 100)))
      (fadd (fmul (Val 0.3) (fdiv (fw_dominantFrequency f) (Val 10)))
      (fadd (fmul (Val (- 0.1)) (fdiv (fw_frequencyPower f) (Val 1000)))
      (fadd (fmul (Val 0.2) (fdiv (fw_spectralCentroid f) (Val 10)))
      (fadd (fmul (Val 0.15) (fmul (fw_zeroCrossingRate f) (Val 10)))
      (fadd (fmul (Val (- 0.25)) (fdiv (fw_signalEnergy f) (Val 10000)))
      (fadd (fmul (Val 0.05) (fdiv (fw_entropy f) (Val 10)))
      (fadd (fmul (Val 0.1)
               (if fge (fw_dominantFrequency f) (Val 3) \<and> fle (fw_dominantFrequency f) (Val 8)
                then Val 1 else Val 0))
      (fadd (fmul (Val (- 0.05)) (if fgt (fw_rmsAmplitude f) (Val 10) then Val 1 else Val 0))
            (Val 0)))))))))))"
  by (simp add: weighted_score_def tremorModel_def normalizedFeatures_def upt_rec)

text \<open>
  Claim C8, amended. With the other features fixed at any values, raising the dominant
  frequency does not lower the class as long as both frequencies are at most \<open>8\<close> Hz, the
  upper edge of the tremor-frequency indicator, or both are above it.
\<close>

theorem classifier_monotone_within_indicator_band:
  assumes "d1 \<le> d2" and "d2 \<le> 8 \<or> 8 < d1"
  shows "ordinal (classifyTremor (f\<lparr>fw_dominantFrequency := Val d1\<rparr>))
       \<le> ordinal (classifyTremor (f\<lparr>fw_dominantFrequency := Val d2\<rparr>))"
proof (rule same_or_below_class)
  have t2: "same_or_below (fmul (Val 0.3) (fdiv (Val d1) (Val 10)))
                          (fmul (Val 0.3) (fdiv (Val d2) (Val 10)))"
    using assms(1) by (simp add: same_or_below_def)
  have t8: "same_or_below
              (fmul (Val 0.1) (if fge (Val d1) (Val 3) \<and> fle (Val d1) (Val 8) then Val 1 else Val 0))
              (fmul (Val 0.1) (if fge (Val d2) (Val 3) \<and> fle (Val d2) (Val 8) then Val 1 else Val 0))"
    using assms by (auto simp: same_or_below_def fge_def)
  show "same_or_below (weighted_score (f\<lparr>fw_dominantFrequency := Val d1\<rparr>))
                      (weighted_score (f\<lparr>fw_dominantFrequency := Val d2\<rparr>))"
    unfolding weighted_score_unfold
    using t2 t8 by (simp add: same_or_below_fadd same_or_below_refl del: fmul.simps fdiv.simps fle.simps)
qed

theorem classifier_monotone_witness:
  "(3::real) \<le> 8
   \<and> classifyTremor (mid_range 3) = Moderate \<and> classifyTremor (mid_range 8) = Severe"
proof -
  have m: "(mid_range 0)\<lparr>fw_dominantFrequency := Val d\<rparr> = mid_range d" for d
    by (simp add: mid_range_def)
  have "classifyTremor (mid_range 3) = Moderate"
    by (simp add: classifyTremor_by_score weighted_score_unfold mid_range_def fge_def fgt_def)
  moreover have "classifyTremor (mid_range 8) = Severe"
    by (simp add: classifyTremor_by_score weighted_score_unfold mid_range_def fge_def fgt_def)
  ultimately show ?thesis
    using classifier_monotone_within_indicator_band [of 3 8 "mid_range 0"] by (simp add: m)
qed

text \<open>
  Claim C8, as stated, lets the frequency rise from \<open>0\<close> to \<open>12\<close> Hz. With every other
  normalised feature at one half, the score is \<open>0.765\<close> at \<open>8\<close> Hz and \<open>0.695\<close> at \<open>9\<close> Hz,
  where the indicator is off: the class falls from severe to moderate.
\<close>

theorem classifier_drop_counterexample:
  "classifyTremor (mid_range 8) = Severe \<and> classifyTremor (mid_range 9) = Moderate
   \<and> weighted_score (mid_range 8) = Val 0.765 \<and> weighted_score (mid_range 9) = Val 0.695"
  by (simp add: classifyTremor_by_score weighted_score_unfold mid_range_def fge_def fgt_def)

section \<open>The spectrum of a sine wave\<close>

subsection \<open>Sums of points on the unit circle\<close>

lemma cmod_cis_minus_one: "cmod (cis x - 1) = 2 * \<bar>sin (x / 2)\<bar>"
proof -
  have "(cmod (cis x - 1))\<^sup>2 = (cos x - 1)\<^sup>2 + (sin x)\<^sup>2"
    by (simp add: cmod_power2)
  also have "\<dots> = 2 - 2 * cos x"
    using sin_cos_squared_add [of x] by (simp add: power2_eq_square algebra_simps)
  also have "\<dots> = (2 * \<bar>sin (x / 2)\<bar>)\<^sup>2"
    using cos_double_sin [of "x / 2"] by (simp add: power2_eq_square)
  finally have "(cmod (cis x - 1))\<^sup>2 = (2 * \<bar>sin (x / 2)\<bar>)\<^sup>2" .
  then show ?thesis
    by (rule power2_eq_imp_eq) simp_all
qed

lemma cis_sum_geometric:
  "(cis x - 1) * (\<Sum>t<n. cis (x * real t)) = cis (x * real n) - 1"
proof -
  have "(cis x - 1) * (\<Sum>t<n. cis x ^ t) = cis x ^ n - 1"
    by (simp add: power_diff_1_eq)
  then show ?thesis
    by (simp add: DeMoivre mult.commute)
qed

lemma cmod_cis_sum:
  "cmod (\<Sum>t<n. cis (x * real t)) * \<bar>sin (x / 2)\<bar> = \<bar>sin (x * real n / 2)\<bar>"
proof -
  have "cmod ((cis x - 1) * (\<Sum>t<n. cis (x * real t))) = cmod (cis (x * real n) - 1)"
    by (simp only: cis_sum_geometric)
  then show ?thesis
    by (simp add: norm_mult cmod_cis_minus_one mult.commute)
qed

lemma sine_as_cis: "of_real (sin y) = (cis y - cis (- y)) / (2 * \<i>)"
  by (simp add: complex_eq_iff)

lemma sum_two_terms:
  fixes c :: complex
  shows "(\<Sum>t<n. c * (a * f t - b * g t)) = c * (a * (\<Sum>t<n. f t) - b * (\<Sum>t<n. g t))"
  by (simp add: sum_distrib_left sum_subtractf right_diff_distrib)

lemma sine_dft:
  "(\<Sum>t<n. of_real (A * sin (w * real t + p)) * cis (- (v * real t)))
   = of_real A / (2 * \<i>) *
       (cis p * (\<Sum>t<n. cis ((w - v) * real t)) - cis (- p) * (\<Sum>t<n. cis (- (w + v) * real t)))"
proof -
  have "of_real (A * sin (w * real t + p)) * cis (- (v * real t))
        = of_real A / (2 * \<i>) * (cis p * cis ((w - v) * real t) - cis (- p) * cis (- (w + v) * real t))"
    for t
    by (simp add: sine_as_cis cis_mult algebra_simps diff_divide_distrib)
  then have "(\<Sum>t<n. of_real (A * sin (w * real t + p)) * cis (- (v * real t)))
      = (\<Sum>t<n. of_real A / (2 * \<i>) *
           (cis p * cis ((w - v) * real t) - cis (- p) * cis (- (w + v) * real t)))"
    by (simp only:)
  also have "\<dots> = of_real A / (2 * \<i>) *
       (cis p * (\<Sum>t<n. cis ((w - v) * real t)) - cis (- p) * (\<Sum>t<n. cis (- (w + v) * real t)))"
    by (rule sum_two_terms)
  finally show ?thesis .
qed

subsection \<open>Bounds on the sines\<close>

lemma abs_sin_shift: "\<bar>sin (x + pi * of_int m)\<bar> = \<bar>sin x\<bar>"
  by (simp add: sin_add)

lemma sin_cubic_lower:
  fixes x :: real
  assumes "0 \<le> x"
  shows "x - x ^ 3 / 6 \<le> sin x"
proof -
  have "\<bar>sin x - (\<Sum>m<3. sin_coeff m * x ^ m)\<bar> \<le> inverse (fact 3) * \<bar>x\<bar> ^ 3"
    by (rule Maclaurin_sin_bound)
  moreover have "(\<Sum>m<3. sin_coeff m * x ^ m) = x"
    by (simp add: numeral_3_eq_3 sin_coeff_def)
  moreover have "inverse (fact 3) * \<bar>x\<bar> ^ 3 = x ^ 3 / 6"
    using assms by (simp add: numeral_3_eq_3 fact_numeral)
  ultimately show ?thesis by linarith
qed

lemma pi_squared_less: "pi * pi < 16"
proof -
  have "pi * pi < 4 * 4"
    by (rule mult_strict_mono) (use pi_less_4 pi_gt_zero in simp_all)
  then show ?thesis by simp
qed

lemma sine_ratio: "3 * sin (pi / 640) < sin (7 * pi / 1280)"
proof -
  let ?x = "7 * pi / 1280"
  have u: "sin (pi / 640) \<le> pi / 640"
    by (rule sin_x_le_x) simp
  have "?x ^ 3 / 6 = (343 * (pi * pi) / (6 * 1280 * 1280)) * (pi / 1280)"
    by (simp add: power3_eq_cube)
  also have "\<dots> < 1 * (pi / 1280)"
    by (rule mult_strict_right_mono) (use pi_squared_less in simp_all)
  finally have "?x ^ 3 / 6 < pi / 1280" by simp
  moreover have "?x - ?x ^ 3 / 6 \<le> sin ?x"
    by (rule sin_cubic_lower) simp
  ultimately show ?thesis using u by linarith
qed

lemma sin_at_least:
  assumes "7 / 1280 \<le> c" and "c \<le> 1 / 2"
  shows "sin (7 * pi / 1280) \<le> sin (c * pi)"
proof (rule sin_monotone_2pi_le)
  show "- (pi / 2) \<le> 7 * pi / 1280" using pi_gt_zero by linarith
  have "7 / 1280 * pi \<le> c * pi"
    using assms(1) by (rule mult_right_mono) simp
  then show "7 * pi / 1280 \<le> c * pi" by simp
  have "c * pi \<le> 1 / 2 * pi"
    using assms(2) by (rule mult_right_mono) simp
  then show "c * pi \<le> pi / 2" by simp
qed

lemma sine_small_pos: "0 < sin (pi / 640)"
  by (rule sin_gt_zero) (use pi_gt_zero in simp_all)

lemma sine_L_pos: "0 < sin (7 * pi / 1280)"
  using sine_ratio sine_small_pos by linarith

lemma sine_top_pos: "0 < sin (2 * pi / 5)"
  by (rule sin_gt_zero) (use pi_gt_zero in simp_all)

subsection \<open>The spectrum of a sampled sine\<close>

lemma sine_dft_norm:
  assumes "0 \<le> A"
  shows "cmod (\<Sum>t<n. of_real (A * sin (w * real t + p)) * cis (- (v * real t)))
       = A / 2 * cmod (cis p * (\<Sum>t<n. cis ((w - v) * real t))
                       - cis (- p) * (\<Sum>t<n. cis (- (w + v) * real t)))"
  unfolding sine_dft using assms by (simp add: norm_mult norm_divide)

lemma sine_dft_upper:
  assumes "0 \<le> A"
  shows "cmod (\<Sum>t<n. of_real (A * sin (w * real t + p)) * cis (- (v * real t)))
       \<le> A / 2 * (cmod (\<Sum>t<n. cis ((w - v) * real t)) + cmod (\<Sum>t<n. cis (- (w + v) * real t)))"
proof -
  have "cmod (cis p * (\<Sum>t<n. cis ((w - v) * real t)) - cis (- p) * (\<Sum>t<n. cis (- (w + v) * real t)))
        \<le> cmod (cis p * (\<Sum>t<n. cis ((w - v) * real t)))
          + cmod (cis (- p) * (\<Sum>t<n. cis (- (w + v) * real t)))"
    by (rule norm_triangle_ineq4)
  then have "cmod (cis p * (\<Sum>t<n. cis ((w - v) * real t)) - cis (- p) * (\<Sum>t<n. cis (- (w + v) * real t)))
        \<le> cmod (\<Sum>t<n. cis ((w - v) * real t)) + cmod (\<Sum>t<n. cis (- (w + v) * real t))"
    by (simp add: norm_mult)
  then show ?thesis
    unfolding sine_dft_norm [OF assms] using assms by (simp add: mult_left_mono)
qed

lemma sine_dft_lower:
  assumes "0 \<le> A"
  shows "A / 2 * (cmod (\<Sum>t<n. cis ((w - v) * real t)) - cmod (\<Sum>t<n. cis (- (w + v) * real t)))
       \<le> cmod (\<Sum>t<n. of_real (A * sin (w * real t + p)) * cis (- (v * real t)))"
proof -
  have "cmod (cis p * (\<Sum>t<n. cis ((w - v) * real t)))
          - cmod (cis (- p) * (\<Sum>t<n. cis (- (w + v) * real t)))
        \<le> cmod (cis p * (\<Sum>t<n. cis ((w - v) * real t)) - cis (- p) * (\<Sum>t<n. cis (- (w + v) * real t)))"
    by (rule norm_triangle_ineq2)
  then have "cmod (\<Sum>t<n. cis ((w - v) * real t)) - cmod (\<Sum>t<n. cis (- (w + v) * real t))
        \<le> cmod (cis p * (\<Sum>t<n. cis ((w - v) * real t)) - cis (- p) * (\<Sum>t<n. cis (- (w + v) * real t)))"
    by (simp add: norm_mult)
  then show ?thesis
    unfolding sine_dft_norm [OF assms] using assms by (simp add: mult_left_mono)
qed

lemma cmod_cis_sum_div:
  assumes "sin (x / 2) \<noteq> 0"
  shows "cmod (\<Sum>t<n. cis (x * real t)) = \<bar>sin (x * real n / 2)\<bar> / \<bar>sin (x / 2)\<bar>"
  using cmod_cis_sum [of x n] assms by (simp add: field_simps)

text \<open>
  The window has 256 samples; the wave advances by \<open>pi / 20\<close> per sample (5 Hz at 200 Hz)
  and bin \<open>k\<close> by \<open>pi * k / 128\<close>.
\<close>

lemma numerator_minus: "\<bar>sin ((pi / 20 - pi * real k / 128) * real (256::nat) / 2)\<bar> = sin (2 * pi / 5)"
proof -
  have "(pi / 20 - pi * real k / 128) * real (256::nat) / 2 = 2 * pi / 5 + pi * of_int (6 - int k)"
    by (simp add: field_simps)
  then have "\<bar>sin ((pi / 20 - pi * real k / 128) * real (256::nat) / 2)\<bar> = \<bar>sin (2 * pi / 5)\<bar>"
    by (simp only: abs_sin_shift)
  then show ?thesis using sine_top_pos by simp
qed

lemma numerator_plus: "\<bar>sin (- (pi / 20 + pi * real k / 128) * real (256::nat) / 2)\<bar> = sin (2 * pi / 5)"
proof -
  have "(pi / 20 + pi * real k / 128) * real (256::nat) / 2 = 2 * pi / 5 + pi * of_int (6 + int k)"
    by (simp add: field_simps)
  then have "\<bar>sin ((pi / 20 + pi * real k / 128) * real (256::nat) / 2)\<bar> = \<bar>sin (2 * pi / 5)\<bar>"
    by (simp only: abs_sin_shift)
  moreover have "- (pi / 20 + pi * real k / 128) * real (256::nat) / 2
      = - ((pi / 20 + pi * real k / 128) * real (256::nat) / 2)"
    by (simp add: field_simps)
  ultimately show ?thesis using sine_top_pos by (simp only: sin_minus abs_minus_cancel)
qed

lemma denominator_plus:
  assumes "k \<le> 15"
  shows "sin (7 * pi / 1280) \<le> \<bar>sin (- (pi / 20 + pi * real k / 128) / 2)\<bar>"
proof -
  have e: "- (pi / 20 + pi * real k / 128) / 2 = - (((32 / 5 + real k) / 256) * pi)"
    by (simp add: field_simps)
  have "sin (7 * pi / 1280) \<le> sin (((32 / 5 + real k) / 256) * pi)"
    by (rule sin_at_least) (use assms in simp_all)
  then show ?thesis
    unfolding e by (simp only: sin_minus abs_minus_cancel)
qed

lemma denominator_minus_low:
  assumes "k \<le> 5"
  shows "sin (7 * pi / 1280) \<le> \<bar>sin ((pi / 20 - pi * real k / 128) / 2)\<bar>"
proof -
  have e: "(pi / 20 - pi * real k / 128) / 2 = ((32 / 5 - real k) / 256) * pi"
    by (simp add: field_simps)
  have "sin (7 * pi / 1280) \<le> sin (((32 / 5 - real k) / 256) * pi)"
    by (rule sin_at_least) (use assms in simp_all)
  then show ?thesis
    unfolding e by simp
qed

lemma denominator_minus_high:
  assumes "8 \<le> k" and "k \<le> 15"
  shows "sin (7 * pi / 1280) \<le> \<bar>sin ((pi / 20 - pi * real k / 128) / 2)\<bar>"
proof -
  have e: "(pi / 20 - pi * real k / 128) / 2 = - (((real k - 32 / 5) / 256) * pi)"
    by (simp add: field_simps)
  have "sin (7 * pi / 1280) \<le> sin (((real k - 32 / 5) / 256) * pi)"
    by (rule sin_at_least) (use assms in simp_all)
  then show ?thesis
    unfolding e by (simp only: sin_minus abs_minus_cancel)
qed

lemma denominator_six: "\<bar>sin ((pi / 20 - pi * real (6::nat) / 128) / 2)\<bar> = sin (pi / 640)"
proof -
  have "(pi / 20 - pi * real (6::nat) / 128) / 2 = pi / 640" by simp
  then show ?thesis using sine_small_pos by simp
qed

lemma cis_sum_upper:
  assumes "cmod G * d = s" and "l \<le> d" and "0 < l" and "0 \<le> s"
  shows "cmod G \<le> s / l"
proof -
  have "0 < d" using assms(2,3) by linarith
  then have "cmod G = s / d" using assms(1) by (simp add: field_simps)
  also have "\<dots> \<le> s / l"
    using assms(2,3,4) by (simp add: frac_le)
  finally show ?thesis .
qed

lemma minus_sum_bound:
  assumes "k \<le> 15" and "k \<le> 5 \<or> 8 \<le> k"
  shows "cmod (\<Sum>t<256. cis ((pi / 20 - pi * real k / 128) * real t))
         \<le> sin (2 * pi / 5) / sin (7 * pi / 1280)"
proof (rule cis_sum_upper)
  show "cmod (\<Sum>t<256. cis ((pi / 20 - pi * real k / 128) * real t))
          * \<bar>sin ((pi / 20 - pi * real k / 128) / 2)\<bar> = sin (2 * pi / 5)"
    using cmod_cis_sum [of "pi / 20 - pi * real k / 128" 256] numerator_minus [of k] by simp
  show "sin (7 * pi / 1280) \<le> \<bar>sin ((pi / 20 - pi * real k / 128) / 2)\<bar>"
    using assms denominator_minus_low [of k] denominator_minus_high [of k] by blast
  show "0 < sin (7 * pi / 1280)" by (rule sine_L_pos)
  show "0 \<le> sin (2 * pi / 5)" using sine_top_pos by simp
qed

lemma plus_sum_bound:
  assumes "k \<le> 15"
  shows "cmod (\<Sum>t<256. cis (- (pi / 20 + pi * real k / 128) * real t))
         \<le> sin (2 * pi / 5) / sin (7 * pi / 1280)"
proof (rule cis_sum_upper)
  show "cmod (\<Sum>t<256. cis (- (pi / 20 + pi * real k / 128) * real t))
          * \<bar>sin (- (pi / 20 + pi * real k / 128) / 2)\<bar> = sin (2 * pi / 5)"
    using cmod_cis_sum [of "- (pi / 20 + pi * real k / 128)" 256] numerator_plus [of k] by simp
  show "sin (7 * pi / 1280) \<le> \<bar>sin (- (pi / 20 + pi * real k / 128) / 2)\<bar>"
    using assms by (rule denominator_plus)
  show "0 < sin (7 * pi / 1280)" by (rule sine_L_pos)
  show "0 \<le> sin (2 * pi / 5)" using sine_top_pos by simp
qed

lemma six_sum_value:
  "cmod (\<Sum>t<256. cis ((pi / 20 - pi * real (6::nat) / 128) * real t))
     = sin (2 * pi / 5) / sin (pi / 640)"
proof -
  have "cmod (\<Sum>t<256. cis ((pi / 20 - pi * real (6::nat) / 128) * real t)) * sin (pi / 640)
          = sin (2 * pi / 5)"
    using cmod_cis_sum [of "pi / 20 - pi * real (6::nat) / 128" 256] numerator_minus [of 6]
      denominator_six by simp
  then show ?thesis using sine_small_pos by (simp add: field_simps)
qed

lemma other_bin_upper:
  assumes "0 < A" and "k \<le> 15" and "k \<le> 5 \<or> 8 \<le> k"
  shows "cmod (\<Sum>t<256. of_real (A * sin (pi / 20 * real t + p)) * cis (- (pi * real k / 128 * real t)))
         \<le> A * (sin (2 * pi / 5) / sin (7 * pi / 1280))"
proof -
  let ?q = "sin (2 * pi / 5) / sin (7 * pi / 1280)"
  have "cmod (\<Sum>t<256. of_real (A * sin (pi / 20 * real t + p)) * cis (- (pi * real k / 128 * real t)))
        \<le> A / 2 * (cmod (\<Sum>t<256. cis ((pi / 20 - pi * real k / 128) * real t))
                    + cmod (\<Sum>t<256. cis (- (pi / 20 + pi * real k / 128) * real t)))"
    by (rule sine_dft_upper) (use assms(1) in simp)
  also have "\<dots> \<le> A / 2 * (?q + ?q)"
    using assms(1) minus_sum_bound [OF assms(2,3)] plus_sum_bound [OF assms(2)]
    by (intro mult_left_mono add_mono) simp_all
  finally show ?thesis by simp
qed

lemma bin_six_lower:
  assumes "0 < A"
  shows "A * (sin (2 * pi / 5) / sin (7 * pi / 1280))
         < cmod (\<Sum>t<256. of_real (A * sin (pi / 20 * real t + p)) * cis (- (pi * real (6::nat) / 128 * real t)))"
proof -
  let ?s = "sin (2 * pi / 5)"
  let ?l = "sin (7 * pi / 1280)"
  let ?u = "sin (pi / 640)"
  have "3 * ?s / ?l < ?s / ?u"
  proof -
    have "3 * ?s * ?u < ?s * ?l"
      using sine_ratio sine_top_pos by (simp add: mult.assoc)
    then show ?thesis
      using sine_small_pos sine_L_pos by (simp add: field_simps)
  qed
  then have "2 * (?s / ?l) < ?s / ?u - ?s / ?l" by simp
  also have "\<dots> \<le> cmod (\<Sum>t<256. cis ((pi / 20 - pi * real (6::nat) / 128) * real t))
                    - cmod (\<Sum>t<256. cis (- (pi / 20 + pi * real (6::nat) / 128) * real t))"
    using six_sum_value plus_sum_bound [of 6] by simp
  finally have lt: "2 * (?s / ?l)
        < cmod (\<Sum>t<256. cis ((pi / 20 - pi * real (6::nat) / 128) * real t))
                    - cmod (\<Sum>t<256. cis (- (pi / 20 + pi * real (6::nat) / 128) * real t))" .
  have "A / 2 * (2 * (?s / ?l))
        < A / 2 * (cmod (\<Sum>t<256. cis ((pi / 20 - pi * real (6::nat) / 128) * real t))
                    - cmod (\<Sum>t<256. cis (- (pi / 20 + pi * real (6::nat) / 128) * real t)))"
    by (rule mult_strict_left_mono [OF lt]) (use assms in simp)
  also have "\<dots> \<le> cmod (\<Sum>t<256. of_real (A * sin (pi / 20 * real t + p))
                              * cis (- (pi * real (6::nat) / 128 * real t)))"
    by (rule sine_dft_lower) (use assms in simp)
  finally show ?thesis by simp
qed

subsection \<open>The spectrum of real samples in the model\<close>

lemma fft_fold_Val:
  assumes "sr \<noteq> 0" and "m \<le> length xs"
  shows "foldl (\<lambda>(re, im) t.
              let angle = fdiv (fmul (fmul (fmul (Val (- 2)) (Val pi)) (Val f)) (Val (real t)))
                               (Val sr)
              in (fadd re (fmul (map Val xs ! t) (fcos angle)),
                  fadd im (fmul (map Val xs ! t) (fsin angle))))
           (Val 0, Val 0) [0..<m]
       = (Val (\<Sum>t<m. xs ! t * cos (- 2 * pi * f * real t / sr)),
          Val (\<Sum>t<m. xs ! t * sin (- 2 * pi * f * real t / sr)))"
  using assms(2)
proof (induction m)
  case 0
  then show ?case by simp
next
  case (Suc m)
  then have "m < length xs" and "m \<le> length xs" by simp_all
  with Suc.IH show ?case
    using assms(1) by (simp add: Let_def)
qed

lemma fft_sum_Val:
  assumes "sr \<noteq> 0"
  shows "fft_sum (map Val xs) (Val sr) (Val f)
       = (Val (\<Sum>t<length xs. xs ! t * cos (- 2 * pi * f * real t / sr)),
          Val (\<Sum>t<length xs. xs ! t * sin (- 2 * pi * f * real t / sr)))"
  unfolding fft_sum_def using fft_fold_Val [OF assms, of "length xs" xs f] by simp

lemma fw_fft_sum_Val:
  "fw_fft_sum (map Val xs) (Val f)
       = (Val (\<Sum>t<length xs. xs ! t * cos (- 2 * pi * f * real t / 200)),
          Val (\<Sum>t<length xs. xs ! t * sin (- 2 * pi * f * real t / 200)))"
  unfolding fw_fft_sum_def SAMPLE_RATE_def
  using fft_fold_Val [of 200 "length xs" xs f] by simp

lemma cmod_cis_sum_parts:
  "cmod (\<Sum>t<n. of_real (x t) * cis (a t))
     = sqrt ((\<Sum>t<n. x t * cos (a t)) * (\<Sum>t<n. x t * cos (a t))
           + (\<Sum>t<n. x t * sin (a t)) * (\<Sum>t<n. x t * sin (a t)))"
  by (simp add: cmod_def power2_eq_square)

lemma magnitude_Val:
  "(case (Val r, Val i) of (re, im) \<Rightarrow> fsqrt (fadd (fmul re re) (fmul im im)))
     = Val (sqrt (r * r + i * i))"
  by (simp add: not_less)

lemma simpleFFT_magnitude_Val:
  assumes "sr \<noteq> 0" and "xs \<noteq> []" and "k < (length xs + 1) div 2"
  shows "fst (simpleFFT (map Val xs) (Val sr)) ! k
       = Val (cmod (\<Sum>t<length xs. of_real (xs ! t)
                       * cis (- 2 * pi * (real k * sr / real (length xs)) * real t / sr)))"
proof -
  have 1: "fst (simpleFFT (map Val xs) (Val sr)) ! k
      = (case fft_sum (map Val xs) (Val sr)
                (fdiv (fmul (Val (real k)) (Val sr)) (Val (real (length xs)))) of
           (re, im) \<Rightarrow> fsqrt (fadd (fmul re re) (fmul im im)))"
    using assms(3) by (simp add: simpleFFT_def Let_def del: fdiv.simps fmul.simps)
  have 2: "fdiv (fmul (Val (real k)) (Val sr)) (Val (real (length xs)))
      = Val (real k * sr / real (length xs))"
    using assms(2) by simp
  show ?thesis
    unfolding 1 2 fft_sum_Val [OF assms(1)] magnitude_Val cmod_cis_sum_parts ..
qed

lemma fw_simpleFFT_magnitude_Val:
  assumes "xs \<noteq> []" and "k < length xs div 2"
  shows "fw_simpleFFT (map Val xs) ! k
       = Val (cmod (\<Sum>t<length xs. of_real (xs ! t)
                       * cis (- 2 * pi * (real k * 200 / real (length xs)) * real t / 200)))"
proof -
  have 1: "fw_simpleFFT (map Val xs) ! k
      = (case fw_fft_sum (map Val xs) (fw_bin_frequency (length xs) k) of
           (re, im) \<Rightarrow> fsqrt (fadd (fmul re re) (fmul im im)))"
    using assms(2) by (simp add: fw_simpleFFT_def Let_def del: fdiv.simps fmul.simps)
  have 2: "fw_bin_frequency (length xs) k = Val (real k * 200 / real (length xs))"
    using assms(1) by (simp add: fw_bin_frequency_def SAMPLE_RATE_def)
  show ?thesis
    unfolding 1 2 fw_fft_sum_Val magnitude_Val cmod_cis_sum_parts ..
qed


subsection \<open>The loop finds a largest magnitude in the band\<close>

lemma dominant_step_max:
  assumes "mag ! i = Val m"
    and "dominant_step mag fr (Val m0, bin, tp) i = (mx1, bin1, tp1)"
  shows "\<exists>m1. mx1 = Val m1 \<and> m0 \<le> m1 \<and> (in_tremor_band (fr i) \<longrightarrow> m \<le> m1)
           \<and> ((bin1 = bin \<and> m1 = m0) \<or> (bin1 = i \<and> in_tremor_band (fr i) \<and> m1 = m))"
proof -
  have "dominant_step mag fr (Val m0, bin, tp) i =
          (if in_tremor_band (fr i)
           then (if m0 < m then (Val m, i, fadd tp (Val m)) else (Val m0, bin, fadd tp (Val m)))
           else (Val m0, bin, tp))"
    by (simp add: dominant_step_def Let_def fgt_def assms(1))
  with assms(2) show ?thesis
    by (cases "in_tremor_band (fr i)"; cases "m0 < m") auto
qed

lemma dominant_max:
  assumes "\<forall>i\<in>set js. mag ! i = Val (m i)"
    and "foldl (dominant_step mag fr) (Val m0, bin, tp) js = (mx', bin', tp')"
  shows "\<exists>m'. mx' = Val m' \<and> m0 \<le> m'
           \<and> (\<forall>i\<in>set js. in_tremor_band (fr i) \<longrightarrow> m i \<le> m')
           \<and> ((bin' = bin \<and> m' = m0) \<or> (bin' \<in> set js \<and> in_tremor_band (fr bin') \<and> m' = m bin'))"
  using assms
proof (induction js arbitrary: m0 bin tp)
  case Nil
  then show ?case by simp
next
  case (Cons i js)
  obtain mx1 bin1 tp1 where s: "dominant_step mag fr (Val m0, bin, tp) i = (mx1, bin1, tp1)"
    by (cases "dominant_step mag fr (Val m0, bin, tp) i") auto
  have mi: "mag ! i = Val (m i)" using Cons.prems(1) by simp
  from dominant_step_max [OF mi s] obtain m1 where m1: "mx1 = Val m1" "m0 \<le> m1"
      "in_tremor_band (fr i) \<longrightarrow> m i \<le> m1"
      "(bin1 = bin \<and> m1 = m0) \<or> (bin1 = i \<and> in_tremor_band (fr i) \<and> m1 = m i)"
    by blast
  have "foldl (dominant_step mag fr) (Val m1, bin1, tp1) js = (mx', bin', tp')"
    using Cons.prems(2) s m1(1) by simp
  moreover have "\<forall>i\<in>set js. mag ! i = Val (m i)" using Cons.prems(1) by simp
  ultimately obtain m' where m': "mx' = Val m'" "m1 \<le> m'"
      "\<forall>i\<in>set js. in_tremor_band (fr i) \<longrightarrow> m i \<le> m'"
      "(bin' = bin1 \<and> m' = m1) \<or> (bin' \<in> set js \<and> in_tremor_band (fr bin') \<and> m' = m bin')"
    using Cons.IH [of m1 bin1 tp1] by blast
  show ?case
  proof (intro exI conjI)
    show "mx' = Val m'" by (rule m'(1))
    show "m0 \<le> m'" using m1(2) m'(2) by linarith
    show "\<forall>j\<in>set (i # js). in_tremor_band (fr j) \<longrightarrow> m j \<le> m'"
      using m1(3) m'(2,3) by auto
    show "(bin' = bin \<and> m' = m0)
          \<or> (bin' \<in> set (i # js) \<and> in_tremor_band (fr bin') \<and> m' = m bin')"
      using m1(4) m'(4) by auto
  qed
qed

subsection \<open>The sine window\<close>

lemma band_bins: "in_tremor_band (Val (real k * 200 / 256)) \<longleftrightarrow> 4 \<le> k \<and> k \<le> 15"
proof -
  have "(3 \<le> real k * 200 / 256) = (real 768 \<le> real (200 * k))"
    by (simp add: field_simps)
  also have "\<dots> = (768 \<le> 200 * k)" by (simp only: of_nat_le_iff)
  also have "\<dots> = (4 \<le> k)" by arith
  finally have lo: "(3 \<le> real k * 200 / 256) = (4 \<le> k)" .
  have "(real k * 200 / 256 \<le> 12) = (real (200 * k) \<le> real 3072)"
    by (simp add: field_simps)
  also have "\<dots> = (200 * k \<le> 3072)" by (simp only: of_nat_le_iff)
  also have "\<dots> = (k \<le> 15)" by arith
  finally have hi: "(real k * 200 / 256 \<le> 12) = (k \<le> 15)" .
  show ?thesis
    by (simp only: in_tremor_band_def fge_def fle.simps lo hi)
qed

lemma sine_window_samples: "sine_window A p = map Val (sine_samples A p)"
  by (simp add: sine_window_def sine_samples_def)

lemma sine_samples_length: "length (sine_samples A p) = 256"
  by (simp add: sine_samples_def)

lemma sine_sum:
  "cmod (\<Sum>t<length (sine_samples A p). of_real (sine_samples A p ! t)
            * cis (- 2 * pi * (real k * 200 / real (length (sine_samples A p))) * real t / 200))
   = sine_bin A p k"
proof -
  have "of_real (sine_samples A p ! t)
            * cis (- 2 * pi * (real k * 200 / real (256::nat)) * real t / 200)
        = of_real (A * sin (pi / 20 * real t + p)) * cis (- (pi * real k / 128 * real t))"
    if "t < 256" for t
  proof -
    have 1: "sine_samples A p ! t = A * sin (2 * pi * 5 * real t / 200 + p)"
      using that by (simp add: sine_samples_def)
    have 2: "2 * pi * 5 * real t / 200 = pi / 20 * real t" by simp
    have 3: "- 2 * pi * (real k * 200 / real (256::nat)) * real t / 200
               = - (pi * real k / 128 * real t)" by simp
    show ?thesis unfolding 1 2 3 ..
  qed
  then have "(\<Sum>t<256. of_real (sine_samples A p ! t)
            * cis (- 2 * pi * (real k * 200 / real (256::nat)) * real t / 200))
        = (\<Sum>t<256. of_real (A * sin (pi / 20 * real t + p)) * cis (- (pi * real k / 128 * real t)))"
    by (intro sum.cong refl) simp
  then show ?thesis
    unfolding sine_samples_length sine_bin_def by (simp only:)
qed

lemma sine_bin_six_largest:
  assumes "0 < A" and "4 \<le> k" and "k \<le> 15" and "k \<noteq> 6" and "k \<noteq> 7"
  shows "sine_bin A p k < sine_bin A p 6"
proof -
  have "k \<le> 5 \<or> 8 \<le> k" using assms(4,5) by arith
  from other_bin_upper [OF assms(1,3) this, of p] bin_six_lower [OF assms(1), of p]
  show ?thesis unfolding sine_bin_def by linarith
qed

lemma sine_bin_six_pos:
  assumes "0 < A"
  shows "0 < sine_bin A p 6"
proof -
  have "0 < A * (sin (2 * pi / 5) / sin (7 * pi / 1280))"
    using assms sine_top_pos sine_L_pos by simp
  with bin_six_lower [OF assms, of p] show ?thesis unfolding sine_bin_def by linarith
qed


lemma sine_dominant_bin:
  assumes "0 < A"
    and mags: "\<forall>i\<in>set [1..<128]. mag ! i = Val (sine_bin A p i)"
    and freqs: "\<forall>i\<in>set [1..<128]. fr i = Val (real i * 200 / 256)"
    and loop: "foldl (dominant_step mag fr) (Val 0, 0, tp) [1..<128] = (mx', bin', tp')"
  shows "bin' = 6 \<or> bin' = 7"
proof -
  from dominant_max [OF mags loop] obtain m' where
      le: "\<forall>i\<in>set [1..<128]. in_tremor_band (fr i) \<longrightarrow> sine_bin A p i \<le> m'"
    and alt: "(bin' = 0 \<and> m' = 0)
            \<or> (bin' \<in> set [1..<128] \<and> in_tremor_band (fr bin') \<and> m' = sine_bin A p bin')"
    by blast
  have six: "(6::nat) \<in> set [1..<128]" by simp
  have "in_tremor_band (fr 6)"
    using freqs six band_bins [of 6] by simp
  then have "sine_bin A p 6 \<le> m'" using le six by blast
  then have pos: "0 < m'" using sine_bin_six_pos [OF assms(1), of p] by linarith
  with alt have b: "bin' \<in> set [1..<128]" "in_tremor_band (fr bin')" "m' = sine_bin A p bin'"
    by auto
  have "fr bin' = Val (real bin' * 200 / 256)" using freqs b(1) by blast
  then have range: "4 \<le> bin' \<and> bin' \<le> 15" using b(2) band_bins [of bin'] by simp
  show ?thesis
  proof (rule ccontr)
    assume "\<not> (bin' = 6 \<or> bin' = 7)"
    then have "sine_bin A p bin' < sine_bin A p 6"
      using sine_bin_six_largest [OF assms(1), of bin' p] range by simp
    with \<open>sine_bin A p 6 \<le> m'\<close> b(3) show False by linarith
  qed
qed

lemma near_five:
  assumes "k = 6 \<or> k = 7"
  shows "\<bar>real k * 200 / 256 - 5\<bar> \<le> 200 / 256"
  using assms by auto

text \<open>
  Claim C4. For the window of 256 samples of a 5 Hz sine wave taken at 200 Hz, of any
  positive amplitude and any phase, the dominant frequency found by the processing
  module and by the firmware is a real value within \<open>200 / 256\<close> Hz of 5 Hz (it is bin 6 or
  bin 7). The sums are exact here; rounding is left out.
\<close>

theorem sine_wave_dominant_frequency:
  assumes "0 < A"
  shows "(\<exists>d. dominantFrequency (extractEMGFeatures (sine_window A p) (Val 200)) = Val d
             \<and> \<bar>d - 5\<bar> \<le> 200 / 256)
       \<and> (\<exists>d. fw_dominantFrequency (extractFeatures (sine_window A p)) = Val d
             \<and> \<bar>d - 5\<bar> \<le> 200 / 256)"
proof
  let ?xs = "sine_samples A p"
  have ne: "?xs \<noteq> []" using sine_samples_length [of A p] by auto
  obtain mx bin tp where d: "emg_dominant (map Val ?xs) (Val 200) = (mx, bin, tp)"
    by (cases "emg_dominant (map Val ?xs) (Val 200)") auto
  have mags: "\<forall>i\<in>set [1..<128]. fst (simpleFFT (map Val ?xs) (Val 200)) ! i = Val (sine_bin A p i)"
  proof
    fix i assume "i \<in> set [1..<128]"
    then have "i < (length ?xs + 1) div 2" by (simp add: sine_samples_length)
    then show "fst (simpleFFT (map Val ?xs) (Val 200)) ! i = Val (sine_bin A p i)"
      using simpleFFT_magnitude_Val [of 200 ?xs i] ne by (simp only: sine_sum) simp
  qed
  have freqs: "\<forall>i\<in>set [1..<128]. snd (simpleFFT (map Val ?xs) (Val 200)) ! i
                  = Val (real i * 200 / 256)"
  proof
    fix i assume "i \<in> set [1..<128]"
    then have "i < (length (map Val ?xs) + 1) div 2" by (simp add: sine_samples_length)
    then show "snd (simpleFFT (map Val ?xs) (Val 200)) ! i = Val (real i * 200 / 256)"
      by (simp add: simpleFFT_frequency sine_samples_length)
  qed
  have loop: "foldl (dominant_step (fst (simpleFFT (map Val ?xs) (Val 200)))
                      (\<lambda>i. snd (simpleFFT (map Val ?xs) (Val 200)) ! i))
                (Val 0, 0, Val 0) [1..<128] = (mx, bin, tp)"
    using d by (simp add: emg_dominant_eq sine_samples_length)
  have bin: "bin = 6 \<or> bin = 7"
    using sine_dominant_bin [OF assms mags freqs loop] .
  then have "bin \<in> set [1..<128]" by auto
  then have f: "snd (simpleFFT (map Val ?xs) (Val 200)) ! bin = Val (real bin * 200 / 256)"
    using freqs by blast
  have "dominantFrequency (extractEMGFeatures (sine_window A p) (Val 200))
          = Val (real bin * 200 / 256)"
    using ne bin
    by (auto simp: sine_window_samples extractEMGFeatures_def Let_def emg_dominantFrequency_eq d f
        js_or_def)
  then show "\<exists>d. dominantFrequency (extractEMGFeatures (sine_window A p) (Val 200)) = Val d
             \<and> \<bar>d - 5\<bar> \<le> 200 / 256"
    using near_five [OF bin] by blast
next
  let ?xs = "sine_samples A p"
  have ne: "?xs \<noteq> []" using sine_samples_length [of A p] by auto
  obtain mx bin tp where d: "fw_dominant (map Val ?xs) = (mx, bin, tp)"
    by (cases "fw_dominant (map Val ?xs)") auto
  have mags: "\<forall>i\<in>set [1..<128]. fw_simpleFFT (map Val ?xs) ! i = Val (sine_bin A p i)"
  proof
    fix i assume "i \<in> set [1..<128]"
    then have "i < length ?xs div 2" by (simp add: sine_samples_length)
    then show "fw_simpleFFT (map Val ?xs) ! i = Val (sine_bin A p i)"
      using fw_simpleFFT_magnitude_Val [of ?xs i] ne by (simp only: sine_sum) simp
  qed
  have freqs: "\<forall>i\<in>set [1..<128]. fw_bin_frequency 256 i = Val (real i * 200 / 256)"
    by (simp add: fw_bin_frequency_def SAMPLE_RATE_def)
  have loop: "foldl (dominant_step (fw_simpleFFT (map Val ?xs)) (fw_bin_frequency 256))
                (Val 0, 0, Val 0) [1..<128] = (mx, bin, tp)"
    using d by (simp add: fw_dominant_def sine_samples_length)
  have bin: "bin = 6 \<or> bin = 7"
    using sine_dominant_bin [OF assms mags freqs loop] .
  have "fw_dominantFrequency (extractFeatures (sine_window A p)) = Val (real bin * 200 / 256)"
    by (simp add: sine_window_samples fw_dominantFrequency_eq d sine_samples_length
        fw_bin_frequency_def SAMPLE_RATE_def)
  then show "\<exists>d. fw_dominantFrequency (extractFeatures (sine_window A p)) = Val d
             \<and> \<bar>d - 5\<bar> \<le> 200 / 256"
    using near_five [OF bin] by blast
qed

theorem sine_wave_dominant_frequency_witness:
  "(0::real) < 1
   \<and> (\<exists>d. dominantFrequency (extractEMGFeatures (sine_window 1 0) (Val 200)) = Val d
          \<and> \<bar>d - 5\<bar> \<le> 200 / 256)"
  using sine_wave_dominant_frequency [of 1 0] by simp

section \<open>The class and the severity index\<close>

lemma fle_fgt_trans: "fle x y \<Longrightarrow> fgt x (Val c) \<Longrightarrow> fgt y (Val c)"
  by (cases x; cases y) (auto simp: fgt_def)

lemma generateEMGInsights_pattern:
  "pattern (generateEMGInsights features) =
     (if fgt (severityIndex features) (Val 70) then Severe
      else if fgt (severityIndex features) (Val 40) then Moderate
      else if fgt (severityIndex features) (Val 20) then Mild
      else Normal)"
  by (simp add: generateEMGInsights_def)

text \<open>
  Claim C9, amended. In the processing module the pattern is a function of the severity
  index with the thresholds \<open>70\<close>, \<open>40\<close>, \<open>20\<close>: a record whose index is at least another's
  has the same or a more severe pattern.
\<close>

theorem insights_pattern_monotone:
  assumes "fle (severityIndex f1) (severityIndex f2)"
  shows "ordinal (pattern (generateEMGInsights f1)) \<le> ordinal (pattern (generateEMGInsights f2))"
  unfolding generateEMGInsights_pattern
  using fle_fgt_trans [OF assms] by auto

theorem insights_pattern_monotone_witness:
  "fle (severityIndex (zero_features\<lparr>severityIndex := Val 30\<rparr>))
       (severityIndex (zero_features\<lparr>severityIndex := Val 50\<rparr>))
   \<and> pattern (generateEMGInsights (zero_features\<lparr>severityIndex := Val 30\<rparr>)) = Mild
   \<and> pattern (generateEMGInsights (zero_features\<lparr>severityIndex := Val 50\<rparr>)) = Moderate"
  using insights_pattern_monotone
          [of "zero_features\<lparr>severityIndex := Val 30\<rparr>" "zero_features\<lparr>severityIndex := Val 50\<rparr>"]
  by (simp add: generateEMGInsights_pattern fgt_def)

subsection \<open>The firmware on constant windows\<close>

lemma constant_bin_sum:
  assumes "0 < k" and "k < 64"
  shows "(\<Sum>t<128. cis (- (pi * real k / 64) * real t)) = 0"
proof -
  have "- (pi * real k / 64) * real (128::nat) / 2 = - (real k * pi)" by simp
  then have "sin (- (pi * real k / 64) * real (128::nat) / 2) = 0"
    by (simp only: sin_minus sin_npi)
  then have e: "cmod (\<Sum>t<128. cis (- (pi * real k / 64) * real t))
                  * \<bar>sin (- (pi * real k / 64) / 2)\<bar> = 0"
    using cmod_cis_sum [of "- (pi * real k / 64)" 128] by (simp only: abs_zero)
  have "0 < sin (pi * real k / 128)"
  proof (rule sin_gt_zero)
    show "0 < pi * real k / 128" using assms(1) by simp
    have "pi * real k < pi * 128"
      using assms(2) by (intro mult_strict_left_mono) simp_all
    then show "pi * real k / 128 < pi" by simp
  qed
  moreover have "- (pi * real k / 64) / 2 = - (pi * real k / 128)" by simp
  ultimately have "\<bar>sin (- (pi * real k / 64) / 2)\<bar> \<noteq> 0"
    by (simp only: sin_minus)
  with e have "cmod (\<Sum>t<128. cis (- (pi * real k / 64) * real t)) = 0"
    by (simp only: mult_eq_0_iff) simp
  then show ?thesis by simp
qed

lemma replicate_Val: "replicate n (Val c) = map Val (replicate n c)"
  by simp

lemma constant_window_magnitude:
  assumes "0 < k" and "k < 64"
  shows "fw_simpleFFT (replicate 128 (Val c)) ! k = Val 0"
proof -
  have "of_real (replicate 128 c ! t) * cis (- 2 * pi * (real k * 200 / real (128::nat)) * real t / 200)
          = of_real c * cis (- (pi * real k / 64) * real t)" if "t < 128" for t
  proof -
    have 1: "replicate 128 c ! t = c" using that by simp
    have 2: "- 2 * pi * (real k * 200 / real (128::nat)) * real t / 200
               = - (pi * real k / 64) * real t" by simp
    show ?thesis unfolding 1 2 ..
  qed
  then have "(\<Sum>t<128. of_real (replicate 128 c ! t)
                 * cis (- 2 * pi * (real k * 200 / real (128::nat)) * real t / 200))
        = (\<Sum>t<128. of_real c * cis (- (pi * real k / 64) * real t))"
    by (intro sum.cong refl) simp
  also have "\<dots> = of_real c * (\<Sum>t<128. cis (- (pi * real k / 64) * real t))"
    by (simp only: sum_distrib_left)
  also have "\<dots> = 0" by (simp only: constant_bin_sum [OF assms] mult_zero_right)
  finally have z: "(\<Sum>t<128. of_real (replicate 128 c ! t)
                 * cis (- 2 * pi * (real k * 200 / real (128::nat)) * real t / 200)) = 0" .
  have "fw_simpleFFT (map Val (replicate 128 c)) ! k
      = Val (cmod (\<Sum>t<length (replicate 128 c). of_real (replicate 128 c ! t)
                       * cis (- 2 * pi * (real k * 200 / real (length (replicate 128 c))) * real t / 200)))"
    by (rule fw_simpleFFT_magnitude_Val) (use assms in simp_all)
  then show ?thesis
    unfolding replicate_Val length_replicate z by simp
qed

lemma dominant_all_zero:
  "\<forall>i\<in>set js. mag ! i = Val 0 \<Longrightarrow>
   foldl (dominant_step mag fr) (Val 0, 0, Val 0) js = (Val 0, 0, Val 0)"
  by (induction js) (simp_all add: dominant_step_def Let_def fgt_def)

lemma constant_window_dominant: "fw_dominant (replicate 128 (Val c)) = (Val 0, 0, Val 0)"
  unfolding fw_dominant_def Let_def
  by (rule dominant_all_zero) (simp add: constant_window_magnitude)

lemma zeroCrossings_constant: "zeroCrossings (replicate n (Val c)) = 0"
  by (auto simp: zeroCrossings_def crossing_def fgt_def filter_empty_conv)

lemma fw_mean_constant:
  assumes "0 \<le> c"
  shows "fw_mean (replicate 128 (Val c)) = Val c"
proof -
  have "foldl (\<lambda>acc x. fadd acc (fabs x)) (Val 0) (map Val (replicate 128 c))
          = Val (0 + sum_list (map abs (replicate 128 c)))"
    by (rule foldl_fadd_Val) simp
  moreover have "sum_list (map abs (replicate 128 c)) = 128 * c"
    using assms by (simp add: sum_list_replicate)
  ultimately show ?thesis by (simp add: fw_mean_def)
qed

lemma extractFeatures_constant:
  assumes "0 \<le> c"
  shows "extractFeatures (replicate 128 (Val c)) =
     \<lparr>fw_meanAmplitude = Val c, fw_rmsAmplitude = Val c, fw_dominantFrequency = Val 0,
      fw_frequencyPower = Val 0, fw_spectralCentroid = Val 0, fw_zeroCrossingRate = Val 0,
      fw_signalEnergy = Val (c * c), fw_entropy = Val 0\<rparr>"
proof -
  have rms: "fw_rms (replicate 128 (Val c)) = Val c"
    using rms_const [of "replicate 128 c" c] assms by (simp add: fw_rms_eq)
  have ent: "fw_entropy_of (replicate 128 (Val c)) = Val 0"
    using fw_entropy_const [of "replicate 128 c" c] assms by simp
  show ?thesis
    by (simp add: extractFeatures_def Let_def constant_window_dominant rms ent
        fw_mean_constant [OF assms] fw_centroid_def fw_zcr_def zeroCrossings_constant
        fw_bin_frequency_def fgt_def)
qed

lemma processTremorData_constant:
  assumes "0 \<le> c"
  shows "processTremorData (replicate 256 (Val c)) 256 fw_zero_features =
     Some (payload_of
             \<lparr>fw_meanAmplitude = Val (0.2 * c), fw_rmsAmplitude = Val (0.2 * c),
              fw_dominantFrequency = Val 0, fw_frequencyPower = Val 0,
              fw_spectralCentroid = Val 0, fw_zeroCrossingRate = Val 0,
              fw_signalEnergy = Val (c * c), fw_entropy = Val 0\<rparr>,
           \<lparr>fw_meanAmplitude = Val (0.2 * c), fw_rmsAmplitude = Val (0.2 * c),
              fw_dominantFrequency = Val 0, fw_frequencyPower = Val 0,
              fw_spectralCentroid = Val 0, fw_zeroCrossingRate = Val 0,
              fw_signalEnergy = Val (c * c), fw_entropy = Val 0\<rparr>, 0)"
  by (simp add: processTremorData_def SAMPLES_def WINDOW_SIZE_def Let_def
        extractFeatures_constant [OF assms] smooth_def fw_zero_features_def)

text \<open>
  Claim C9, as stated, covers the firmware too, where the class comes from the score and
  the index from amplitude and frequency. From a start with zero previous features, a
  full buffer of zeros gives the index \<open>0\<close> and the class moderate (the score is the bias
  \<open>0.5\<close>); a full buffer of the constant \<open>800\<close> gives the index \<open>100\<close> and the class normal
  (the energy term pulls the score to \<open>-15.71\<close>).
\<close>

theorem firmware_index_class_counterexample:
  "processTremorData (replicate 256 (Val 0)) 256 fw_zero_features \<noteq> None
   \<and> payload_severityIndex
        (fst (the (processTremorData (replicate 256 (Val 0)) 256 fw_zero_features))) = Val 0
   \<and> pattern (payload_aiInsights
        (fst (the (processTremorData (replicate 256 (Val 0)) 256 fw_zero_features)))) = Moderate
   \<and> processTremorData (replicate 256 (Val 800)) 256 fw_zero_features \<noteq> None
   \<and> payload_severityIndex
        (fst (the (processTremorData (replicate 256 (Val 800)) 256 fw_zero_features))) = Val 100
   \<and> pattern (payload_aiInsights
        (fst (the (processTremorData (replicate 256 (Val 800)) 256 fw_zero_features)))) = Normal"
  by (simp add: processTremorData_constant payload_of_def Let_def generateInsights_def
      classifyTremor_by_score weighted_score_unfold std_min_def std_max_def fge_def fgt_def)

section \<open>Two full windows of the firmware\<close>

lemma entropy_fold_zero_samples:
  "0 < r \<Longrightarrow> foldl (entropy_step (Val r)) e (replicate n (Val 0)) = e"
  by (induction n) (simp_all add: entropy_step_def entropy_normalized_def fgt_def)

lemma impulse_rms: "fw_rms (Val 1 # replicate 127 (Val 0)) = Val (sqrt (1 / 128))"
proof -
  have "fw_rms (map Val (1 # replicate 127 0))
          = Val (sqrt (sum_list (map (\<lambda>x. x * x) (1 # replicate 127 0))
                       / real (length (1 # replicate 127 (0::real)))))"
    unfolding fw_rms_eq by (rule emg_rmsAmplitude_Val) simp
  moreover have "sum_list (map (\<lambda>x. x * x) (1 # replicate 127 (0::real))) = 1"
    by (simp add: sum_list_replicate)
  ultimately show ?thesis by simp
qed

lemma impulse_entropy:
  "fw_entropy (extractFeatures (Val 1 # replicate 127 (Val 0)))
     = Val (- (sqrt 128 * ln (sqrt 128)))"
proof -
  have p: "0 < sqrt (1 / 128 :: real)" by simp
  have q: "1 / sqrt (1 / 128 :: real) = sqrt 128"
    by (simp add: real_sqrt_divide)
  have big: "(1 / 1000 :: real) < sqrt 128"
  proof -
    have "(1::real) \<le> sqrt 128" by simp
    then show ?thesis by linarith
  qed
  have "entropy_step (Val (sqrt (1 / 128))) (Val 0) (Val 1) = Val (- (sqrt 128 * ln (sqrt 128)))"
    using big by (simp add: entropy_step_def entropy_normalized_def fgt_def fsub_def q
        del: real_sqrt_lt_1_iff real_sqrt_gt_1_iff)
  then show ?thesis
    using p by (simp add: fw_entropy_field fw_entropy_of_def impulse_rms entropy_fold_zero_samples
        del: fadd.simps)
qed

text \<open>
  Claim C2, as stated, asks for an entropy that is never negative. The firmware divides
  the magnitudes by the RMS amplitude, so a quotient can exceed \<open>1\<close>: on the window of one
  sample \<open>1\<close> followed by 127 zeros the RMS amplitude is \<open>sqrt (1 / 128)\<close>, the only
  quotient above the threshold is \<open>sqrt 128\<close>, and the entropy is
  \<open>- sqrt 128 * ln (sqrt 128)\<close>, which is negative.
\<close>

theorem entropy_negative_counterexample:
  "fw_entropy (extractFeatures (Val 1 # replicate 127 (Val 0))) = Val (- (sqrt 128 * ln (sqrt 128)))
   \<and> \<not> fge (Val (- (sqrt 128 * ln (sqrt 128)))) (Val 0)"
proof -
  have "(1::real) < sqrt 128" by simp
  then have "0 < ln (sqrt 128)" by simp
  then have "0 < sqrt 128 * ln (sqrt 128)" by simp
  then have "\<not> 0 \<le> - (sqrt 128 * ln (sqrt 128))" by linarith
  then have "\<not> fge (Val (- (sqrt 128 * ln (sqrt 128)))) (Val 0)"
    by (simp only: fge_def fle.simps not_False_eq_True)
  with impulse_entropy show ?thesis by (rule conjI)
qed


text \<open>
  The severity index of Claim C5 on a full buffer of the constant \<open>1\<close>, from zero previous
  features: the smoothed amplitude is \<open>0.2\<close>, the frequency \<open>0\<close> and the index \<open>2\<close>; and on
  the one-sample signal \<open>1\<close> in the processing module.
\<close>

theorem severityIndex_formulas_witness:
  "processTremorData (replicate 256 (Val 1)) 256 fw_zero_features \<noteq> None
   \<and> payload_amplitude
        (fst (the (processTremorData (replicate 256 (Val 1)) 256 fw_zero_features))) = Val 0.2
   \<and> payload_frequency
        (fst (the (processTremorData (replicate 256 (Val 1)) 256 fw_zero_features))) = Val 0
   \<and> payload_severityIndex
        (fst (the (processTremorData (replicate 256 (Val 1)) 256 fw_zero_features))) = Val 2
   \<and> [1 :: real] \<noteq> []
   \<and> severityIndex (extractEMGFeatures [Val 1] (Val 200)) = Val 0.5"
proof -
  let ?F = "\<lparr>fw_meanAmplitude = Val (0.2 * 1), fw_rmsAmplitude = Val (0.2 * 1),
              fw_dominantFrequency = Val 0, fw_frequencyPower = Val 0,
              fw_spectralCentroid = Val 0, fw_zeroCrossingRate = Val 0,
              fw_signalEnergy = Val (1 * 1), fw_entropy = Val 0\<rparr>"
  have run: "processTremorData (replicate 256 (Val 1)) 256 fw_zero_features
               = Some (payload_of ?F, ?F, 0)"
    by (rule processTremorData_constant) simp
  have ts: "severityIndex (extractEMGFeatures [Val 1] (Val 200)) = Val 0.5"
    by (simp add: extractEMGFeatures_def Let_def emg_rmsAmplitude_def emg_zeroCrossingRate_def
        zeroCrossings_def emg_dominantFrequency_eq emg_dominant_eq simpleFFT_frequency
        js_or_def emg_severityIndex_Val)
  show ?thesis
    using severityIndex_formulas
            [where features = ?F and r = "0.2 * 1" and d = 0 and xs = "[1]" and sr = "Val 200"
               and emgBuffer = "replicate 256 (Val 1)" and bufferIndex = 256
               and prevFeatures = fw_zero_features and payload = "payload_of ?F" and i = 0]
      run ts
    by simp
qed

section \<open>The invariants on the sine window\<close>

lemma sine_fw_dominant_frequency:
  assumes "0 < A"
  shows "fw_dominantFrequency (extractFeatures (map Val (sine_samples A p))) = Val (6 * 200 / 256)
       \<or> fw_dominantFrequency (extractFeatures (map Val (sine_samples A p))) = Val (7 * 200 / 256)"
proof -
  let ?xs = "sine_samples A p"
  have ne: "?xs \<noteq> []" using sine_samples_length [of A p] by auto
  obtain mx bin tp where d: "fw_dominant (map Val ?xs) = (mx, bin, tp)"
    by (cases "fw_dominant (map Val ?xs)") auto
  have mags: "\<forall>i\<in>set [1..<128]. fw_simpleFFT (map Val ?xs) ! i = Val (sine_bin A p i)"
  proof
    fix i assume "i \<in> set [1..<128]"
    then have "i < length ?xs div 2" by (simp add: sine_samples_length)
    then show "fw_simpleFFT (map Val ?xs) ! i = Val (sine_bin A p i)"
      using fw_simpleFFT_magnitude_Val [of ?xs i] ne by (simp only: sine_sum) simp
  qed
  have freqs: "\<forall>i\<in>set [1..<128]. fw_bin_frequency 256 i = Val (real i * 200 / 256)"
    by (simp add: fw_bin_frequency_def SAMPLE_RATE_def)
  have loop: "foldl (dominant_step (fw_simpleFFT (map Val ?xs)) (fw_bin_frequency 256))
                (Val 0, 0, Val 0) [1..<128] = (mx, bin, tp)"
    using d by (simp add: fw_dominant_def sine_samples_length)
  have bin: "bin = 6 \<or> bin = 7"
    using sine_dominant_bin [OF assms mags freqs loop] .
  have "fw_dominantFrequency (extractFeatures (map Val ?xs)) = Val (real bin * 200 / 256)"
    by (simp add: fw_dominantFrequency_eq d sine_samples_length
        fw_bin_frequency_def SAMPLE_RATE_def)
  with bin show ?thesis by auto
qed

text \<open>
  The invariants of Claim C2 on the window of 256 samples of a 5 Hz sine wave of
  amplitude \<open>1\<close>: the firmware's loop over the band finds bin 6 or bin 7, so its dominant
  frequency is not \<open>0\<close> and lies within \<open>[3, 12]\<close>.
\<close>

theorem feature_invariants_witness:
  "sine_samples 1 0 \<noteq> []
   \<and> fge (rmsAmplitude (extractEMGFeatures (map Val (sine_samples 1 0)) (Val 200))) (Val 0)
   \<and> fge (fw_rmsAmplitude (extractFeatures (map Val (sine_samples 1 0)))) (Val 0)
   \<and> fw_dominantFrequency (extractFeatures (map Val (sine_samples 1 0))) \<noteq> Val 0
   \<and> fge (fw_dominantFrequency (extractFeatures (map Val (sine_samples 1 0)))) (Val 3)
   \<and> fle (fw_dominantFrequency (extractFeatures (map Val (sine_samples 1 0)))) (Val 12)"
proof -
  have ne: "sine_samples 1 0 \<noteq> []" using sine_samples_length [of 1 0] by auto
  have nz: "fw_dominantFrequency (extractFeatures (map Val (sine_samples 1 0))) \<noteq> Val 0"
    using sine_fw_dominant_frequency [of 1 0] by auto
  from feature_invariants [of "sine_samples 1 0" "Val 200"] ne nz show ?thesis by simp
qed

section \<open>The classifier in single precision\<close>

subsection \<open>Rounding\<close>






























subsection \<open>The score and the four bands\<close>




end
